theory Spec2Isabelle
  imports Complex_Main "HOL-Library.AList"
begin

section \<open>Python values used by the reconciliation script\<close>

text \<open>
  The development embeds \<^verbatim>\<open>run_calc_commission_BRS.py\<close>, the current one of the two scripts
  of the repository (\<^verbatim>\<open>run_calc_comission_BRS.py\<close> is its earlier version, with the same
  \<^verbatim>\<open>process_file\<close> and \<^verbatim>\<open>main\<close> but without \<^verbatim>\<open>convert_amount\<close>). A Python \<^verbatim>\<open>str\<close> is a sequence
  of Unicode code points, so a string is a list of code points here; \<open>u\<close> turns an ASCII
  literal into one. The Cyrillic literals of the script are written out as code points,
  under transliterated names (\<open>POKUPKA\<close> and so on), which also stand for them in the
  quotations of the source.
\<close>

type_synonym ustring = "nat list"

definition u :: "string \<Rightarrow> ustring" where
  "u s = map of_char s"

text \<open>The exceptions that the script can meet.\<close>

datatype error = ValueError | TypeError | KeyError | OSError

subsection \<open>Strings: \<^verbatim>\<open>strip\<close>, \<^verbatim>\<open>upper\<close>, \<^verbatim>\<open>replace\<close>, \<^verbatim>\<open>startswith\<close>, \<^verbatim>\<open>endswith\<close>\<close>

text \<open>The code points for which \<^verbatim>\<open>str.isspace\<close> holds; \<^verbatim>\<open>str.strip()\<close> removes them at both ends.\<close>

definition is_space :: "nat \<Rightarrow> bool" where
  "is_space c = ((9 \<le> c \<and> c \<le> 13) \<or> (28 \<le> c \<and> c \<le> 32) \<or> c = 133 \<or> c = 160 \<or> c = 5760
     \<or> (8192 \<le> c \<and> c \<le> 8202) \<or> c = 8232 \<or> c = 8233 \<or> c = 8239 \<or> c = 8287 \<or> c = 12288)"

definition py_strip :: "ustring \<Rightarrow> ustring" where
  "py_strip s = rev (dropWhile is_space (rev (dropWhile is_space s)))"

text \<open>
  \<^verbatim>\<open>str.upper()\<close> on the Latin letters of ASCII and on the Cyrillic letters U+0430..U+045F,
  the alphabets of the script's data; every other code point is returned as it is
  (Python's table knows further alphabets).
\<close>

definition upper_char :: "nat \<Rightarrow> nat" where
  "upper_char c = (if 97 \<le> c \<and> c \<le> 122 then c - 32
     else if 1072 \<le> c \<and> c \<le> 1103 then c - 32
     else if 1104 \<le> c \<and> c \<le> 1119 then c - 80 else c)"

definition py_upper :: "ustring \<Rightarrow> ustring" where
  "py_upper s = map upper_char s"

text \<open>\<^verbatim>\<open>value.replace(' ', '')\<close> and \<^verbatim>\<open>value.replace(',', '.')\<close>.\<close>

definition remove_spaces :: "ustring \<Rightarrow> ustring" where
  "remove_spaces s = filter (\<lambda>c. c \<noteq> 32) s"

definition commas_to_points :: "ustring \<Rightarrow> ustring" where
  "commas_to_points s = map (\<lambda>c. if c = 44 then 46 else c) s"

definition startswith :: "ustring \<Rightarrow> ustring \<Rightarrow> bool" where
  "startswith s p = (take (length p) s = p)"

definition endswith :: "ustring \<Rightarrow> ustring \<Rightarrow> bool" where
  "endswith s p = (length p \<le> length s \<and> drop (length s - length p) s = p)"

subsection \<open>Floats\<close>

text \<open>
  A Python float is a finite number, an infinity or NaN. A finite float is represented by
  the rational number it denotes, and \<open>*\<close>, \<open>-\<close> and rounding to two decimals give the exact
  rational result: the rounding error of binary64 arithmetic is outside this model, and
  \<open>-0.0\<close> is the same value as \<open>0.0\<close>.
\<close>

datatype pyfloat = Fin rat | PInf | NInf | NaN

definition fneg :: "pyfloat \<Rightarrow> pyfloat" where
  "fneg x = (case x of Fin q \<Rightarrow> Fin (- q) | PInf \<Rightarrow> NInf | NInf \<Rightarrow> PInf | NaN \<Rightarrow> NaN)"

text \<open>The sign of a float that is not NaN: \<open>-1\<close>, \<open>0\<close> or \<open>1\<close>.\<close>

definition fsgn :: "pyfloat \<Rightarrow> int" where
  "fsgn x = (case x of Fin q \<Rightarrow> (if q < 0 then - 1 else if q = 0 then 0 else 1)
     | PInf \<Rightarrow> 1 | NInf \<Rightarrow> - 1 | NaN \<Rightarrow> 0)"

text \<open>\<^verbatim>\<open>x * y\<close> on floats.\<close>

definition fmul :: "pyfloat \<Rightarrow> pyfloat \<Rightarrow> pyfloat" where
  "fmul x y = (case (x, y) of
       (Fin a, Fin b) \<Rightarrow> Fin (a * b)
     | (NaN, _) \<Rightarrow> NaN
     | (_, NaN) \<Rightarrow> NaN
     | _ \<Rightarrow> (if fsgn x * fsgn y = 0 then NaN else if 0 < fsgn x * fsgn y then PInf else NInf))"

text \<open>\<^verbatim>\<open>x - y\<close> on floats.\<close>

definition fsub :: "pyfloat \<Rightarrow> pyfloat \<Rightarrow> pyfloat" where
  "fsub x y = (case (x, y) of
       (Fin a, Fin b) \<Rightarrow> Fin (a - b)
     | (NaN, _) \<Rightarrow> NaN
     | (_, NaN) \<Rightarrow> NaN
     | (PInf, PInf) \<Rightarrow> NaN
     | (NInf, NInf) \<Rightarrow> NaN
     | (PInf, _) \<Rightarrow> PInf
     | (NInf, _) \<Rightarrow> NInf
     | (_, PInf) \<Rightarrow> NInf
     | (_, NInf) \<Rightarrow> PInf)"

text \<open>Rounding a rational to the nearest integer, a tie going to the even neighbour.\<close>

definition round_even :: "rat \<Rightarrow> int" where
  "round_even q = (let f = \<lfloor>q\<rfloor>; r = q - of_int f in
     if r < 1 / 2 then f else if 1 / 2 < r then f + 1 else if even f then f else f + 1)"

text \<open>
  \<^verbatim>\<open>round(x, 2)\<close> of the builtin and \<^verbatim>\<open>Series.round(2)\<close> of pandas: both round to two
  decimals, a tie going to the even digit, and leave infinities and NaN as they are.
\<close>

definition round2 :: "pyfloat \<Rightarrow> pyfloat" where
  "round2 x = (case x of Fin q \<Rightarrow> Fin (of_int (round_even (q * 100)) / 100) | _ \<Rightarrow> x)"

text \<open>\<^verbatim>\<open>x != 0\<close> on a float: NaN and the infinities are different from zero.\<close>

definition ne_zero :: "pyfloat \<Rightarrow> bool" where
  "ne_zero x = (x \<noteq> Fin 0)"

subsection \<open>\<^verbatim>\<open>float(s)\<close> on a string\<close>

text \<open>
  The builtin strips white space at both ends (the code points U+001C..U+001F are not
  white space for it), accepts an underscore between two digits, a sign, \<^verbatim>\<open>inf\<close>,
  \<^verbatim>\<open>infinity\<close> and \<^verbatim>\<open>nan\<close> in any case, and a decimal number with an optional point and
  exponent. Digits are the ASCII digits. \<open>None\<close> is the \<^verbatim>\<open>ValueError\<close> of the builtin.
\<close>

definition is_digit :: "nat \<Rightarrow> bool" where
  "is_digit c = (48 \<le> c \<and> c \<le> 57)"

definition float_space :: "nat \<Rightarrow> bool" where
  "float_space c = (is_space c \<and> \<not> (28 \<le> c \<and> c \<le> 31))"

definition float_strip :: "ustring \<Rightarrow> ustring" where
  "float_strip s = rev (dropWhile float_space (rev (dropWhile float_space s)))"

text \<open>
  \<open>drop_underscores prev s\<close>: the string without its underscores, when each of them stands
  between two digits; \<open>prev\<close> is the code point before \<open>s\<close> (0 at the start).
\<close>

fun drop_underscores :: "nat \<Rightarrow> ustring \<Rightarrow> ustring option" where
  "drop_underscores prev [] = (if prev = 95 then None else Some [])"
| "drop_underscores prev (c # cs) =
     (if c = 95 then (if is_digit prev then drop_underscores c cs else None)
      else if prev = 95 \<and> \<not> is_digit c then None
      else map_option ((#) c) (drop_underscores c cs))"

definition digits_val :: "ustring \<Rightarrow> nat" where
  "digits_val ds = foldl (\<lambda>a c. 10 * a + (c - 48)) 0 ds"

definition lower_ascii :: "ustring \<Rightarrow> ustring" where
  "lower_ascii s = map (\<lambda>c. if 65 \<le> c \<and> c \<le> 90 then c + 32 else c) s"

text \<open>The exponent part: empty, or \<^verbatim>\<open>e\<close>, an optional sign and at least one digit.\<close>

definition parse_exponent :: "ustring \<Rightarrow> int option" where
  "parse_exponent s = (case s of
       [] \<Rightarrow> Some 0
     | c # cs \<Rightarrow>
         (if c \<noteq> 101 \<and> c \<noteq> 69 then None
          else let (neg, ds) = (case cs of
                      [] \<Rightarrow> (False, [])
                    | d # ds' \<Rightarrow> (if d = 45 then (True, ds') else if d = 43 then (False, ds') else (False, cs)))
               in if ds \<noteq> [] \<and> list_all is_digit ds
                  then Some (if neg then - int (digits_val ds) else int (digits_val ds))
                  else None))"

text \<open>An unsigned decimal number: digits, an optional point and digits, an optional exponent.\<close>

definition parse_decimal :: "ustring \<Rightarrow> rat option" where
  "parse_decimal s =
     (let ip = takeWhile is_digit s; r1 = dropWhile is_digit s;
          fp = (case r1 of [] \<Rightarrow> [] | c # cs \<Rightarrow> if c = 46 then takeWhile is_digit cs else []);
          r2 = (case r1 of [] \<Rightarrow> [] | c # cs \<Rightarrow> if c = 46 then dropWhile is_digit cs else r1)
      in if ip = [] \<and> fp = [] then None
         else (case parse_exponent r2 of
                 None \<Rightarrow> None
               | Some e \<Rightarrow>
                   Some (of_nat (digits_val (ip @ fp)) / 10 ^ length fp
                         * (if 0 \<le> e then 10 ^ nat e else 1 / 10 ^ nat (- e)))))"

definition parse_unsigned :: "ustring \<Rightarrow> pyfloat option" where
  "parse_unsigned s =
     (if lower_ascii s = u ''inf'' \<or> lower_ascii s = u ''infinity'' then Some PInf
      else if lower_ascii s = u ''nan'' then Some NaN
      else map_option Fin (parse_decimal s))"

definition float_of_str :: "ustring \<Rightarrow> pyfloat option" where
  "float_of_str s = (case drop_underscores 0 (float_strip s) of
       None \<Rightarrow> None
     | Some t \<Rightarrow> (case t of
           [] \<Rightarrow> None
         | c # cs \<Rightarrow> if c = 45 then map_option fneg (parse_unsigned cs)
                     else if c = 43 then parse_unsigned cs
                     else parse_unsigned t))"

subsection \<open>Cells of a table\<close>

text \<open>
  A cell of a data frame holds a Python object: a string, a float (an empty cell is the
  float NaN), an integer, a boolean, \<^verbatim>\<open>None\<close>, or an object of another type (a date, say),
  which is given by the text that \<^verbatim>\<open>str\<close> returns for it.
\<close>

datatype cell = Str ustring | Flt pyfloat | PyInt int | PyBool bool | PyNone | Other ustring

text \<open>\<^verbatim>\<open>float(value)\<close>: a \<^verbatim>\<open>ValueError\<close> for a string that is no number, a \<^verbatim>\<open>TypeError\<close> for
  an object that has no conversion. The integers of a data frame are 64-bit ones, which
  \<^verbatim>\<open>float\<close> always converts.\<close>

definition py_float :: "cell \<Rightarrow> error + pyfloat" where
  "py_float v = (case v of
       Str s \<Rightarrow> (case float_of_str s of None \<Rightarrow> Inl ValueError | Some x \<Rightarrow> Inr x)
     | Flt x \<Rightarrow> Inr x
     | PyInt n \<Rightarrow> Inr (Fin (of_int n))
     | PyBool b \<Rightarrow> Inr (Fin (if b then 1 else 0))
     | PyNone \<Rightarrow> Inl TypeError
     | Other t \<Rightarrow> Inl TypeError)"

section \<open>Amount normalisation\<close>

text \<open>
  \<^verbatim>\<open>
  def convert_amount(value):
      if isinstance(value, str):
          value = value.replace(' ', '').replace(',', '.')
      return float(value)
  \<close>
\<close>

definition convert_amount :: "cell \<Rightarrow> error + pyfloat" where
  "convert_amount v = (case v of
       Str s \<Rightarrow> py_float (Str (commas_to_points (remove_spaces s)))
     | _ \<Rightarrow> py_float v)"


text \<open>
  \<^verbatim>\<open>str(value)\<close>. The text of a float (its shortest repr) is not computed here: it is the
  parameter \<open>fr\<close> of every function that needs it, and each theorem holds for any \<open>fr\<close>.
\<close>

fun nat_digits :: "nat \<Rightarrow> ustring" where
  "nat_digits n = (if n < 10 then [48 + n] else nat_digits (n div 10) @ [48 + n mod 10])"

declare nat_digits.simps [simp del]

definition py_str :: "(pyfloat \<Rightarrow> ustring) \<Rightarrow> cell \<Rightarrow> ustring" where
  "py_str fr v = (case v of
       Str s \<Rightarrow> s
     | Flt x \<Rightarrow> fr x
     | PyInt n \<Rightarrow> (if n < 0 then 45 # nat_digits (nat (- n)) else nat_digits (nat n))
     | PyBool b \<Rightarrow> (if b then u ''True'' else u ''False'')
     | PyNone \<Rightarrow> u ''None''
     | Other t \<Rightarrow> t)"

section \<open>Rows and data frames\<close>

text \<open>
  A row is what pandas hands to a function applied along \<^verbatim>\<open>axis=1\<close>: the cells of one line,
  indexed by column name. A data frame is its column index and its rows, in order. A cell
  that a row lacks for a column of the frame reads as missing, which is how
  \<^verbatim>\<open>pd.concat\<close> fills the columns that one of its arguments does not have.
\<close>

type_synonym row = "(ustring \<times> cell) list"

record frame =
  columns :: "ustring list"
  rows :: "row list"

definition empty_frame :: frame where
  "empty_frame = \<lparr>columns = [], rows = []\<rparr>"

text \<open>\<^verbatim>\<open>df.empty\<close>: one of the two axes has length 0.\<close>

definition frame_empty :: "frame \<Rightarrow> bool" where
  "frame_empty df = (rows df = [] \<or> columns df = [])"

text \<open>\<^verbatim>\<open>row[k]\<close> raises \<^verbatim>\<open>KeyError\<close> for a missing key.\<close>

definition getitem :: "row \<Rightarrow> ustring \<Rightarrow> error + cell" where
  "getitem r k = (case map_of r k of None \<Rightarrow> Inl KeyError | Some v \<Rightarrow> Inr v)"

definition setitem :: "row \<Rightarrow> ustring \<Rightarrow> cell \<Rightarrow> row" where
  "setitem r k v = AList.update k v r"

definition add_column :: "ustring list \<Rightarrow> ustring \<Rightarrow> ustring list" where
  "add_column cs c = (if c \<in> set cs then cs else cs @ [c])"

text \<open>Sequencing of computations that may raise.\<close>

definition bindE :: "error + 'a \<Rightarrow> ('a \<Rightarrow> error + 'b) \<Rightarrow> error + 'b" where
  "bindE m f = (case m of Inl e \<Rightarrow> Inl e | Inr x \<Rightarrow> f x)"

fun mapE :: "('a \<Rightarrow> error + 'b) \<Rightarrow> 'a list \<Rightarrow> error + 'b list" where
  "mapE f [] = Inr []"
| "mapE f (x # xs) = bindE (f x) (\<lambda>y. bindE (mapE f xs) (\<lambda>ys. Inr (y # ys)))"

text \<open>
  \<^verbatim>\<open>df[c] = s\<close> for a series \<open>s\<close> that pandas computes line by line from \<open>df\<close> itself
  (\<^verbatim>\<open>df[c].apply(f)\<close>, \<^verbatim>\<open>df.apply(f, axis=1)\<close>, \<^verbatim>\<open>df[c].round(2)\<close>): the whole series is
  computed first, so the first line that raises leaves the frame unassigned.
\<close>

definition put :: "ustring \<Rightarrow> (row \<Rightarrow> error + cell) \<Rightarrow> row \<Rightarrow> error + row" where
  "put c g r = bindE (g r) (\<lambda>v. Inr (setitem r c v))"

definition assign :: "ustring \<Rightarrow> (row \<Rightarrow> error + cell) \<Rightarrow> frame \<Rightarrow> error + frame" where
  "assign c g df = bindE (mapE (put c g) (rows df))
     (\<lambda>rs. Inr \<lparr>columns = add_column (columns df) c, rows = rs\<rparr>)"

text \<open>\<^verbatim>\<open>pd.concat([a, b], ignore_index=True)\<close>: the rows of \<open>a\<close>, then those of \<open>b\<close>, over
  the union of the columns.\<close>

definition pd_concat :: "frame \<Rightarrow> frame \<Rightarrow> frame" where
  "pd_concat a b = \<lparr>columns = columns a @ filter (\<lambda>c. c \<notin> set (columns a)) (columns b),
     rows = rows a @ rows b\<rparr>"

subsection \<open>The names of the script\<close>

definition c_TYPE :: ustring where "c_TYPE = u ''TYPE''"
definition c_AMOUNT :: ustring where "c_AMOUNT = u ''AMOUNT''"
definition c_COMMISSION :: ustring where "c_COMMISSION = u ''COMMISSION''"
definition c_PMT_SYSTEM_CODE :: ustring where "c_PMT_SYSTEM_CODE = u ''PMT_SYSTEM_CODE''"
definition DEFAULT :: ustring where "DEFAULT = u ''DEFAULT''"

text \<open>The purchase marker, \<^verbatim>\<open>U+041F U+041E U+041A U+0423 U+041F U+041A U+0410\<close>.\<close>

definition POKUPKA :: ustring where
  "POKUPKA = [1055, 1054, 1050, 1059, 1055, 1050, 1040]"

text \<open>The column of the computed fee, "commission (computed)" in Russian.\<close>

definition KOMISSIYA_RASCHET :: ustring where
  "KOMISSIYA_RASCHET = [1050, 1086, 1084, 1080, 1089, 1089, 1080, 1103, 32, 40, 1088, 1072, 1089,
     1095, 1077, 1090, 41]"

text \<open>The column of the delta, "difference (F - U)" in Russian.\<close>

definition RAZNITSA :: ustring where
  "RAZNITSA = [1056, 1072, 1079, 1085, 1080, 1094, 1072, 32, 40, 70, 32, 45, 32, 85, 41]"

text \<open>The columns "file" and "processing time" of the report.\<close>

definition FAIL :: ustring where
  "FAIL = [1060, 1072, 1081, 1083]"

definition VREMYA_OBRABOTKI :: ustring where
  "VREMYA_OBRABOTKI = [1042, 1088, 1077, 1084, 1103, 32, 1086, 1073, 1088, 1072, 1073, 1086, 1090,
     1082, 1080]"

text \<open>The columns "card type" and "commission rate" of \<^verbatim>\<open>setup.xlsx\<close>.\<close>

definition TIP_KARTY :: ustring where
  "TIP_KARTY = [1058, 1080, 1087, 32, 1082, 1072, 1088, 1090, 1099]"

definition STAVKA_KOMISSII :: ustring where
  "STAVKA_KOMISSII = [1057, 1090, 1072, 1074, 1082, 1072, 32, 1082, 1086, 1084, 1080, 1089, 1089,
     1080, 1080]"


section \<open>The world around the script\<close>

text \<open>
  What the script reads from its surroundings, and whether its writes go through. The body
  of \<^verbatim>\<open>read_file_with_encoding\<close> is pandas input; its outcome for a path is a field here
  (it raises \<^verbatim>\<open>ValueError\<close> when no reading succeeds). \<open>excel_writer_ok p\<close> tells whether
  the \<^verbatim>\<open>with pd.ExcelWriter(...)\<close> block that writes the annotated copy of \<open>p\<close> completes.
\<close>

record world =
  setup_exists :: bool
  read_setup :: "error + frame"
  cwd :: ustring
  listdir :: "ustring list"
  read_file_with_encoding :: "ustring \<Rightarrow> error + frame"
  excel_writer_ok :: "ustring \<Rightarrow> bool"
  results_exists :: bool
  results_writable :: bool
  now :: ustring

section \<open>The rate table\<close>

type_synonym rates = "ustring \<rightharpoonup> pyfloat"

definition default_rates :: rates where
  "default_rates = [u ''MIR'' \<mapsto> Fin 0.0142, u ''MC'' \<mapsto> Fin 0.02, u ''VISA'' \<mapsto> Fin 0.0165,
     u ''CUP'' \<mapsto> Fin 0.0165, u ''AMEX'' \<mapsto> Fin 0.03, DEFAULT \<mapsto> Fin 0]"

text \<open>\<^verbatim>\<open>d[k]\<close> on a dictionary raises \<^verbatim>\<open>KeyError\<close> for a missing key.\<close>

definition dict_getitem :: "rates \<Rightarrow> ustring \<Rightarrow> error + pyfloat" where
  "dict_getitem d k = (case d k of None \<Rightarrow> Inl KeyError | Some v \<Rightarrow> Inr v)"

definition setdefault :: "rates \<Rightarrow> ustring \<Rightarrow> pyfloat \<Rightarrow> rates" where
  "setdefault d k v = (case d k of None \<Rightarrow> d(k \<mapsto> v) | Some _ \<Rightarrow> d)"

text \<open>
  One turn of the loop over \<^verbatim>\<open>df.iterrows()\<close>:
  \<^verbatim>\<open>
  card_type = str(row[TIP_KARTY]).strip().upper()
  rate = float(row[STAVKA_KOMISSII])
  commission_rates[card_type] = rate
  \<close>
\<close>

definition rate_row :: "(pyfloat \<Rightarrow> ustring) \<Rightarrow> row \<Rightarrow> error + ustring \<times> pyfloat" where
  "rate_row fr r = bindE (getitem r TIP_KARTY) (\<lambda>c.
     bindE (getitem r STAVKA_KOMISSII) (\<lambda>v.
     bindE (py_float v) (\<lambda>rate. Inr (py_upper (py_strip (py_str fr c)), rate))))"

fun load_rows :: "(pyfloat \<Rightarrow> ustring) \<Rightarrow> row list \<Rightarrow> rates \<Rightarrow> error + rates" where
  "load_rows fr [] commission_rates = Inr commission_rates"
| "load_rows fr (r # rs) commission_rates =
     bindE (rate_row fr r) (\<lambda>(card_type, rate). load_rows fr rs (commission_rates(card_type \<mapsto> rate)))"

text \<open>The body of the \<^verbatim>\<open>try\<close> of \<^verbatim>\<open>load_commission_rates\<close>.\<close>

definition load_try :: "(pyfloat \<Rightarrow> ustring) \<Rightarrow> world \<Rightarrow> error + rates" where
  "load_try fr w =
     (if \<not> setup_exists w then Inr default_rates
      else bindE (read_setup w) (\<lambda>df.
        if frame_empty df then Inr default_rates
        else bindE (load_rows fr (rows df) Map.empty) (\<lambda>commission_rates.
             bindE (dict_getitem default_rates DEFAULT) (\<lambda>d.
             Inr (setdefault commission_rates DEFAULT d)))))"

text \<open>\<^verbatim>\<open>load_commission_rates\<close>: any exception of the body is caught and answered by the
  built-in table.\<close>

definition load_commission_rates :: "(pyfloat \<Rightarrow> ustring) \<Rightarrow> world \<Rightarrow> error + rates" where
  "load_commission_rates fr w =
     (case load_try fr w of Inl e \<Rightarrow> Inr default_rates | Inr commission_rates \<Rightarrow> Inr commission_rates)"

section \<open>The fee of one row\<close>

text \<open>\<^verbatim>\<open>commission_rates.get(card_type, commission_rates['DEFAULT'])\<close>: the default is
  looked up before \<^verbatim>\<open>get\<close> is called.\<close>

definition rates_get :: "rates \<Rightarrow> ustring \<Rightarrow> error + pyfloat" where
  "rates_get commission_rates card_type = bindE (dict_getitem commission_rates DEFAULT) (\<lambda>d.
     Inr (case commission_rates card_type of None \<Rightarrow> d | Some rate \<Rightarrow> rate))"

text \<open>The body of the \<^verbatim>\<open>try\<close> of \<^verbatim>\<open>calculate_commission\<close>.\<close>

definition commission_try :: "(pyfloat \<Rightarrow> ustring) \<Rightarrow> row \<Rightarrow> rates \<Rightarrow> error + pyfloat" where
  "commission_try fr r commission_rates = bindE (getitem r c_PMT_SYSTEM_CODE) (\<lambda>code.
     bindE (getitem r c_AMOUNT) (\<lambda>a.
     bindE (convert_amount a) (\<lambda>amount.
     bindE (rates_get commission_rates (py_upper (py_strip (py_str fr code)))) (\<lambda>rate.
     Inr (round2 (fmul amount rate))))))"

text \<open>
  \<^verbatim>\<open>
  def calculate_commission(row, commission_rates):
      if row['TYPE'] != POKUPKA:
          return 0.0
      try:
          ...
      except Exception as e:
          return 0.0
  \<close>
\<close>

definition calculate_commission :: "(pyfloat \<Rightarrow> ustring) \<Rightarrow> row \<Rightarrow> rates \<Rightarrow> error + pyfloat" where
  "calculate_commission fr r commission_rates = bindE (getitem r c_TYPE) (\<lambda>t.
     if t \<noteq> Str POKUPKA then Inr (Fin 0)
     else (case commission_try fr r commission_rates of Inl e \<Rightarrow> Inr (Fin 0) | Inr commission \<Rightarrow> Inr commission))"

section \<open>One file\<close>

definition required_columns :: "ustring list" where
  "required_columns = [c_TYPE, c_AMOUNT, c_COMMISSION, c_PMT_SYSTEM_CODE]"

text \<open>The number in a cell, for \<open>-\<close>; a string or \<^verbatim>\<open>None\<close> has none.\<close>

definition num_of :: "cell \<Rightarrow> pyfloat option" where
  "num_of v = (case v of Flt x \<Rightarrow> Some x | PyInt n \<Rightarrow> Some (Fin (of_int n))
     | PyBool b \<Rightarrow> Some (Fin (if b then 1 else 0)) | _ \<Rightarrow> None)"

definition py_sub :: "cell \<Rightarrow> cell \<Rightarrow> error + pyfloat" where
  "py_sub a b = (case (num_of a, num_of b) of (Some x, Some y) \<Rightarrow> Inr (fsub x y) | _ \<Rightarrow> Inl TypeError)"

text \<open>
  \<^verbatim>\<open>lambda row: (row['COMMISSION'] - row[KOMISSIYA_RASCHET]) if row['TYPE'] == POKUPKA else 0.0\<close>
\<close>

definition difference :: "row \<Rightarrow> error + pyfloat" where
  "difference r = bindE (getitem r c_TYPE) (\<lambda>t.
     if t = Str POKUPKA
     then bindE (getitem r c_COMMISSION) (\<lambda>f. bindE (getitem r KOMISSIYA_RASCHET) (\<lambda>c. py_sub f c))
     else Inr (Fin 0))"

text \<open>\<^verbatim>\<open>Series.round(2)\<close> on one cell of a numeric column.\<close>

definition cell_round2 :: "cell \<Rightarrow> error + cell" where
  "cell_round2 v = (case num_of v of None \<Rightarrow> Inl TypeError | Some x \<Rightarrow> Inr (Flt (round2 x)))"

text \<open>\<^verbatim>\<open>value != 0\<close> on one cell.\<close>

definition cell_ne_zero :: "cell \<Rightarrow> bool" where
  "cell_ne_zero v = (case num_of v of None \<Rightarrow> True | Some x \<Rightarrow> ne_zero x)"

definition as_cell :: "error + pyfloat \<Rightarrow> error + cell" where
  "as_cell m = bindE m (\<lambda>x. Inr (Flt x))"

text \<open>
  Lines 109 to 124 of \<^verbatim>\<open>process_file\<close>: the check of the required columns, the two
  conversions, and the columns of the computed fee and of the rounded delta.
\<close>

definition annotate :: "(pyfloat \<Rightarrow> ustring) \<Rightarrow> rates \<Rightarrow> frame \<Rightarrow> error + frame" where
  "annotate fr commission_rates df =
     (let missing_columns = filter (\<lambda>col. col \<notin> set (columns df)) required_columns
      in if missing_columns \<noteq> [] then Inl ValueError
         else bindE (assign c_AMOUNT (\<lambda>r. as_cell (bindE (getitem r c_AMOUNT) convert_amount)) df) (\<lambda>df1.
              bindE (assign c_COMMISSION (\<lambda>r. as_cell (bindE (getitem r c_COMMISSION) convert_amount)) df1) (\<lambda>df2.
              bindE (assign KOMISSIYA_RASCHET (\<lambda>r. as_cell (calculate_commission fr r commission_rates)) df2) (\<lambda>df3.
              bindE (assign RAZNITSA (\<lambda>r. as_cell (difference r)) df3) (\<lambda>df4.
              assign RAZNITSA (\<lambda>r. bindE (getitem r RAZNITSA) cell_round2) df4)))))"

text \<open>What the five assignments of \<open>annotate\<close> do to one row, one after the other.\<close>

definition annotate_row :: "(pyfloat \<Rightarrow> ustring) \<Rightarrow> rates \<Rightarrow> row \<Rightarrow> error + row" where
  "annotate_row fr commission_rates r =
     bindE (bindE (bindE (bindE
       (put c_AMOUNT (\<lambda>r. as_cell (bindE (getitem r c_AMOUNT) convert_amount)) r)
       (put c_COMMISSION (\<lambda>r. as_cell (bindE (getitem r c_COMMISSION) convert_amount))))
       (put KOMISSIYA_RASCHET (\<lambda>r. as_cell (calculate_commission fr r commission_rates))))
       (put RAZNITSA (\<lambda>r. as_cell (difference r))))
       (put RAZNITSA (\<lambda>r. bindE (getitem r RAZNITSA) cell_round2))"

text \<open>The delta that a row of an annotated table carries.\<close>

definition delta :: "row \<Rightarrow> pyfloat option" where
  "delta r = (case getitem r RAZNITSA of Inr (Flt x) \<Rightarrow> Some x | _ \<Rightarrow> None)"

text \<open>The computed fee that a row of an annotated table carries.\<close>

definition fee :: "row \<Rightarrow> pyfloat option" where
  "fee r = (case getitem r KOMISSIYA_RASCHET of Inr (Flt x) \<Rightarrow> Some x | _ \<Rightarrow> None)"

text \<open>A row of an annotated table whose delta is not zero.\<close>

definition flagged :: "row \<Rightarrow> bool" where
  "flagged r = (case delta r of Some x \<Rightarrow> ne_zero x | None \<Rightarrow> False)"

text \<open>\<^verbatim>\<open>df[df[RAZNITSA] != 0]\<close>: the rows whose delta is not zero, in their order.\<close>

definition discrepancy_rows :: "frame \<Rightarrow> error + row list" where
  "discrepancy_rows df =
     bindE (mapE (\<lambda>r. bindE (getitem r RAZNITSA) (\<lambda>v. Inr (r, cell_ne_zero v))) (rows df))
       (\<lambda>marked. Inr (map fst (filter snd marked)))"

text \<open>\<^verbatim>\<open>os.path.basename\<close>: what follows the last slash.\<close>

definition basename :: "ustring \<Rightarrow> ustring" where
  "basename p = rev (takeWhile (\<lambda>c. c \<noteq> 47) (rev p))"

text \<open>
  Lines 105 to 130 of \<^verbatim>\<open>process_file\<close>: the annotated table of the file, and the data
  frame \<^verbatim>\<open>discrepancies\<close>, which gets the column of the file name when it has a row.
\<close>

definition reconcile :: "(pyfloat \<Rightarrow> ustring) \<Rightarrow> world \<Rightarrow> ustring \<Rightarrow> rates \<Rightarrow> error + frame \<times> frame" where
  "reconcile fr w file_path commission_rates =
     bindE (read_file_with_encoding w file_path) (\<lambda>df0.
     bindE (annotate fr commission_rates df0) (\<lambda>df.
     bindE (discrepancy_rows df) (\<lambda>ds.
       let discrepancies = \<lparr>columns = columns df, rows = ds\<rparr>
       in if \<not> frame_empty discrepancies
          then Inr (df, \<lparr>columns = add_column (columns df) FAIL,
                         rows = map (\<lambda>r. setitem r FAIL (Str (basename file_path))) ds\<rparr>)
          else Inr (df, discrepancies))))"

text \<open>The discrepancies of one file: the rows of \<^verbatim>\<open>discrepancies\<close>, none when the file fails
  before.\<close>

definition file_discrepancies :: "(pyfloat \<Rightarrow> ustring) \<Rightarrow> world \<Rightarrow> rates \<Rightarrow> ustring \<Rightarrow> row list" where
  "file_discrepancies fr w commission_rates file_path =
     (case reconcile fr w file_path commission_rates of
        Inl e \<Rightarrow> []
      | Inr (df, discrepancies) \<Rightarrow> rows discrepancies)"

text \<open>
  \<^verbatim>\<open>process_file\<close> returns the data frame of all discrepancies; the second component is
  the annotated table that it has written, if it has. The variable \<^verbatim>\<open>results_df\<close> is
  rebound at line 130, before the annotated table is written, and the handler at line 166
  returns the variable as it is then.
\<close>

definition process_file ::
  "(pyfloat \<Rightarrow> ustring) \<Rightarrow> world \<Rightarrow> ustring \<Rightarrow> frame \<Rightarrow> rates \<Rightarrow> frame \<times> frame option" where
  "process_file fr w file_path results_df commission_rates =
     (case reconcile fr w file_path commission_rates of
        Inl e \<Rightarrow> (results_df, None)
      | Inr (df, discrepancies) \<Rightarrow>
          (let results_df' = (if \<not> frame_empty discrepancies then pd_concat results_df discrepancies
                              else results_df)
           in if excel_writer_ok w file_path then (results_df', Some df) else (results_df', None)))"

section \<open>The run\<close>

definition is_input :: "ustring \<Rightarrow> bool" where
  "is_input f = ((endswith f (u ''.xlsx'') \<or> endswith f (u ''.xls'') \<or> endswith f (u ''.csv'')
       \<or> endswith f (u ''.dsv'') \<or> endswith f (u ''.dsvp''))
     \<and> \<not> startswith f (u ''results'')
     \<and> \<not> endswith f (u ''_processed.xlsx'')
     \<and> \<not> endswith f (u ''_processed.xls'')
     \<and> \<not> endswith f (u ''_processed.csv'')
     \<and> f \<noteq> u ''setup.xlsx'')"

text \<open>\<^verbatim>\<open>os.path.join(current_dir, f)\<close> for a name \<open>f\<close> of the directory.\<close>

definition path_join :: "ustring \<Rightarrow> ustring \<Rightarrow> ustring" where
  "path_join d f = (if d = [] \<or> endswith d (u ''/'') then d @ f else d @ u ''/'' @ f)"

text \<open>The loop over the files: the discrepancies so far, and the annotated tables written.\<close>

fun process_files ::
  "(pyfloat \<Rightarrow> ustring) \<Rightarrow> world \<Rightarrow> rates \<Rightarrow> ustring list \<Rightarrow> frame \<times> (ustring \<times> frame) list
     \<Rightarrow> frame \<times> (ustring \<times> frame) list" where
  "process_files fr w commission_rates [] acc = acc"
| "process_files fr w commission_rates (file_path # ps) (results_df, written) =
     (case process_file fr w file_path results_df commission_rates of
        (results_df', out) \<Rightarrow> process_files fr w commission_rates ps
           (results_df', written @ (case out of None \<Rightarrow> [] | Some df \<Rightarrow> [(file_path, df)])))"

text \<open>
  The file \<^verbatim>\<open>results.xlsx\<close> after the run: not there, the file of an earlier run left as
  it was, that file cut to zero bytes by \<^verbatim>\<open>open(results_path, 'w').close()\<close>, or the report
  written by this run.
\<close>

datatype results_xlsx = Absent | Kept | Truncated | Report frame

record outcome =
  returned :: frame
  annotated :: "(ustring \<times> frame) list"
  results_file :: results_xlsx

text \<open>\<^verbatim>\<open>results_df[VREMYA_OBRABOTKI] = ...\<close>: the same text in every row.\<close>

definition stamp :: "ustring \<Rightarrow> frame \<Rightarrow> frame" where
  "stamp t df = \<lparr>columns = add_column (columns df) VREMYA_OBRABOTKI,
     rows = map (\<lambda>r. setitem r VREMYA_OBRABOTKI (Str t)) (rows df)\<rparr>"

definition processed_files :: "world \<Rightarrow> ustring list" where
  "processed_files w = map (path_join (cwd w)) (filter is_input (listdir w))"

text \<open>
  \<^verbatim>\<open>main\<close>. Nothing catches a failure to open or to write \<^verbatim>\<open>results.xlsx\<close>: the run ends
  with the exception.
\<close>

definition main :: "(pyfloat \<Rightarrow> ustring) \<Rightarrow> world \<Rightarrow> error + outcome" where
  "main fr w = bindE (load_commission_rates fr w) (\<lambda>commission_rates.
     if processed_files w = []
     then Inr \<lparr>returned = empty_frame, annotated = [],
                results_file = (if results_exists w then Kept else Absent)\<rparr>
     else (case process_files fr w commission_rates (processed_files w) (empty_frame, []) of
        (results_df, written) \<Rightarrow>
          if results_exists w \<and> \<not> results_writable w then Inl OSError
          else if \<not> frame_empty results_df
          then (if results_writable w
                then Inr \<lparr>returned = stamp (now w) results_df, annotated = written,
                           results_file = Report (stamp (now w) results_df)\<rparr>
                else Inl OSError)
          else Inr \<lparr>returned = results_df, annotated = written,
                     results_file = (if results_exists w then Truncated else Absent)\<rparr>))"


text \<open>The data frame \<^verbatim>\<open>discrepancies\<close> of a file, in terms of its annotated table \<open>df\<close>.\<close>

definition tagged :: "ustring \<Rightarrow> frame \<Rightarrow> frame" where
  "tagged p df = (if filter flagged (rows df) = [] then \<lparr>columns = columns df, rows = []\<rparr>
     else \<lparr>columns = add_column (columns df) FAIL,
            rows = map (\<lambda>r. setitem r FAIL (Str (basename p))) (filter flagged (rows df))\<rparr>)"

section \<open>Example inputs\<close>

text \<open>
  A stand-in for the text of a float, for the examples: none of them has a float in a
  column of codes.
\<close>

definition repr0 :: "pyfloat \<Rightarrow> ustring" where
  "repr0 x = []"

text \<open>A world with one file, \<^verbatim>\<open>/data/a.csv\<close>, no \<^verbatim>\<open>setup.xlsx\<close> and no \<^verbatim>\<open>results.xlsx\<close>;
  \<open>rd\<close> is what reading the file gives, \<open>ok\<close> whether its annotated copy can be written.\<close>

definition example_world :: "error + frame \<Rightarrow> bool \<Rightarrow> world" where
  "example_world rd ok = \<lparr>setup_exists = False, read_setup = Inl OSError, cwd = u ''/data'',
     listdir = [u ''a.csv''], read_file_with_encoding = (\<lambda>p. rd), excel_writer_ok = (\<lambda>p. ok),
     results_exists = False, results_writable = True, now = u ''2024-01-01 00:00:00''\<rparr>"

text \<open>A purchase by a card of an unknown network: amount 500, recorded fee 5.\<close>

definition row_jcb :: row where
  "row_jcb = [(c_TYPE, Str POKUPKA), (c_AMOUNT, Str (u ''500'')), (c_COMMISSION, Flt (Fin 5)),
     (c_PMT_SYSTEM_CODE, Str (u ''JCB''))]"

text \<open>A purchase whose amount is no number.\<close>

definition row_bad :: row where
  "row_bad = [(c_TYPE, Str POKUPKA), (c_AMOUNT, Str (u ''abc'')), (c_COMMISSION, Flt (Fin 1)),
     (c_PMT_SYSTEM_CODE, Str (u ''MIR''))]"

text \<open>A purchase by a MIR card, the code in lower case between spaces: amount 1234.56,
  recorded fee 17.5.\<close>

definition row_mir :: row where
  "row_mir = [(c_TYPE, Str POKUPKA), (c_AMOUNT, Str (u ''1 234,56'')), (c_COMMISSION, Flt (Fin 17.5)),
     (c_PMT_SYSTEM_CODE, Str (u '' mir ''))]"

text \<open>The marker in lower case, \<^verbatim>\<open>U+043F U+043E U+043A U+0443 U+043F U+043A U+0430\<close>, and a row
  of that type: amount 500, recorded fee 5, a MIR card.\<close>

definition pokupka_lower :: ustring where
  "pokupka_lower = [1087, 1086, 1082, 1091, 1087, 1082, 1072]"

definition row_lower :: row where
  "row_lower = [(c_TYPE, Str pokupka_lower), (c_AMOUNT, Str (u ''500'')), (c_COMMISSION, Flt (Fin 5)),
     (c_PMT_SYSTEM_CODE, Str (u ''MIR''))]"

definition frame_jcb :: frame where
  "frame_jcb = \<lparr>columns = required_columns, rows = [row_jcb]\<rparr>"

definition frame_bad :: frame where
  "frame_bad = \<lparr>columns = required_columns, rows = [row_bad, row_jcb]\<rparr>"

definition frame_mir :: frame where
  "frame_mir = \<lparr>columns = required_columns, rows = [row_mir, row_lower]\<rparr>"


text \<open>The row \<open>row_jcb\<close> in the annotated table, and in the report of the file \<^verbatim>\<open>a.csv\<close>.\<close>

definition row_jcb_annotated :: row where
  "row_jcb_annotated = [(c_TYPE, Str POKUPKA), (c_AMOUNT, Flt (Fin 500)), (c_COMMISSION, Flt (Fin 5)),
     (c_PMT_SYSTEM_CODE, Str (u ''JCB'')), (KOMISSIYA_RASCHET, Flt (Fin 0)), (RAZNITSA, Flt (Fin 5))]"

definition row_jcb_reported :: row where
  "row_jcb_reported = row_jcb_annotated @ [(FAIL, Str (u ''a.csv''))]"

text \<open>
  Two contents of \<^verbatim>\<open>setup.xlsx\<close>: one row for the network \<^verbatim>\<open>visa\<close> at the rate 0.02; and that
  row followed by a row whose rate is the text \<^verbatim>\<open>abc\<close>. \<open>setup_world df\<close> is a world in which
  \<^verbatim>\<open>setup.xlsx\<close> exists and reads as \<open>df\<close>.
\<close>

definition setup_row_visa :: row where
  "setup_row_visa = [(TIP_KARTY, Str (u ''visa'')), (STAVKA_KOMISSII, Flt (Fin 0.02))]"

definition setup_row_abc :: row where
  "setup_row_abc = [(TIP_KARTY, Str (u ''MIR'')), (STAVKA_KOMISSII, Str (u ''abc''))]"

definition setup_good :: frame where
  "setup_good = \<lparr>columns = [TIP_KARTY, STAVKA_KOMISSII], rows = [setup_row_visa]\<rparr>"

definition setup_bad :: frame where
  "setup_bad = \<lparr>columns = [TIP_KARTY, STAVKA_KOMISSII], rows = [setup_row_visa, setup_row_abc]\<rparr>"

definition setup_world :: "frame \<Rightarrow> world" where
  "setup_world df = (example_world (Inl ValueError) True)\<lparr>setup_exists := True, read_setup := Inr df\<rparr>"

section \<open>Basic facts\<close>

lemma bindE_Inl [simp]: "bindE (Inl e) f = Inl e"
  by (simp add: bindE_def)

lemma bindE_Inr [simp]: "bindE (Inr x) f = f x"
  by (simp add: bindE_def)

lemma bindE_eq_Inr: "bindE m f = Inr y \<longleftrightarrow> (\<exists>x. m = Inr x \<and> f x = Inr y)"
  by (cases m) simp_all

lemma as_cell_eq_Inr: "as_cell m = Inr v \<longleftrightarrow> (\<exists>x. m = Inr x \<and> v = Flt x)"
  by (cases m) (auto simp: as_cell_def)

lemma mapE_length: "mapE f xs = Inr ys \<Longrightarrow> length ys = length xs"
  by (induction xs arbitrary: ys) (auto simp: bindE_eq_Inr)

lemma mapE_nth: "mapE f xs = Inr ys \<Longrightarrow> i < length xs \<Longrightarrow> f (xs ! i) = Inr (ys ! i)"
proof (induction xs arbitrary: ys i)
  case Nil
  then show ?case by simp
next
  case (Cons x xs)
  from Cons.prems(1) obtain y ys' where y: "f x = Inr y" and ys': "mapE f xs = Inr ys'" and eq: "ys = y # ys'"
    by (auto simp: bindE_eq_Inr)
  show ?case
  proof (cases i)
    case 0
    with y eq show ?thesis by simp
  next
    case (Suc j)
    with Cons.prems(2) have "j < length xs" by simp
    from Cons.IH [OF ys' this] Suc eq show ?thesis by simp
  qed
qed

lemma mapE_comp:
  "mapE f xs = Inr ys \<Longrightarrow> mapE g ys = Inr zs \<Longrightarrow> mapE (\<lambda>x. bindE (f x) g) xs = Inr zs"
  by (induction xs arbitrary: ys zs) (auto simp: bindE_eq_Inr)

lemma mapE_map: "(\<And>x. x \<in> set xs \<Longrightarrow> f x = Inr (h x)) \<Longrightarrow> mapE f xs = Inr (map h xs)"
  by (induction xs) simp_all

lemma getitem_setitem: "getitem (setitem r k v) k' = (if k' = k then Inr v else getitem r k')"
  by (simp add: getitem_def setitem_def update_conv')

lemma columns_distinct:
  "c_AMOUNT \<noteq> c_TYPE" "c_COMMISSION \<noteq> c_TYPE" "c_COMMISSION \<noteq> c_AMOUNT"
  "c_PMT_SYSTEM_CODE \<noteq> c_AMOUNT" "c_PMT_SYSTEM_CODE \<noteq> c_COMMISSION" "c_PMT_SYSTEM_CODE \<noteq> c_TYPE"
  "KOMISSIYA_RASCHET \<noteq> c_TYPE" "KOMISSIYA_RASCHET \<noteq> c_AMOUNT" "KOMISSIYA_RASCHET \<noteq> c_COMMISSION"
  "KOMISSIYA_RASCHET \<noteq> c_PMT_SYSTEM_CODE"
  "RAZNITSA \<noteq> c_TYPE" "RAZNITSA \<noteq> c_AMOUNT" "RAZNITSA \<noteq> c_COMMISSION"
  "RAZNITSA \<noteq> c_PMT_SYSTEM_CODE" "RAZNITSA \<noteq> KOMISSIYA_RASCHET"
  "FAIL \<noteq> RAZNITSA" "VREMYA_OBRABOTKI \<noteq> RAZNITSA"
  by (simp_all add: c_TYPE_def c_AMOUNT_def c_COMMISSION_def c_PMT_SYSTEM_CODE_def KOMISSIYA_RASCHET_def
      RAZNITSA_def FAIL_def VREMYA_OBRABOTKI_def u_def)

lemma assign_eq_Inr:
  "assign c g df = Inr df' \<longleftrightarrow>
     (\<exists>rs. mapE (put c g) (rows df) = Inr rs
        \<and> df' = \<lparr>columns = add_column (columns df) c, rows = rs\<rparr>)"
  by (auto simp: assign_def bindE_eq_Inr)


lemma annotate_rows:
  assumes "annotate fr rates df = Inr df'"
  shows "mapE (annotate_row fr rates) (rows df) = Inr (rows df')"
proof -
  from assms obtain df1 df2 df3 df4 where
    1: "assign c_AMOUNT (\<lambda>r. as_cell (bindE (getitem r c_AMOUNT) convert_amount)) df = Inr df1" and
    2: "assign c_COMMISSION (\<lambda>r. as_cell (bindE (getitem r c_COMMISSION) convert_amount)) df1 = Inr df2" and
    3: "assign KOMISSIYA_RASCHET (\<lambda>r. as_cell (calculate_commission fr r rates)) df2 = Inr df3" and
    4: "assign RAZNITSA (\<lambda>r. as_cell (difference r)) df3 = Inr df4" and
    5: "assign RAZNITSA (\<lambda>r. bindE (getitem r RAZNITSA) cell_round2) df4 = Inr df'"
    by (auto simp: annotate_def Let_def bindE_eq_Inr split: if_splits)
  from 1 have m1: "mapE (put c_AMOUNT (\<lambda>r. as_cell (bindE (getitem r c_AMOUNT) convert_amount))) (rows df)
      = Inr (rows df1)"
    by (auto simp: assign_eq_Inr)
  from 2 have m2: "mapE (put c_COMMISSION (\<lambda>r. as_cell (bindE (getitem r c_COMMISSION) convert_amount))) (rows df1)
      = Inr (rows df2)"
    by (auto simp: assign_eq_Inr)
  from 3 have m3: "mapE (put KOMISSIYA_RASCHET (\<lambda>r. as_cell (calculate_commission fr r rates))) (rows df2)
      = Inr (rows df3)"
    by (auto simp: assign_eq_Inr)
  from 4 have m4: "mapE (put RAZNITSA (\<lambda>r. as_cell (difference r))) (rows df3) = Inr (rows df4)"
    by (auto simp: assign_eq_Inr)
  from 5 have m5: "mapE (put RAZNITSA (\<lambda>r. bindE (getitem r RAZNITSA) cell_round2)) (rows df4) = Inr (rows df')"
    by (auto simp: assign_eq_Inr)
  note c = mapE_comp [OF mapE_comp [OF mapE_comp [OF mapE_comp [OF m1 m2] m3] m4] m5]
  have "annotate_row fr rates = (\<lambda>r. bindE (bindE (bindE (bindE
       (put c_AMOUNT (\<lambda>r. as_cell (bindE (getitem r c_AMOUNT) convert_amount)) r)
       (put c_COMMISSION (\<lambda>r. as_cell (bindE (getitem r c_COMMISSION) convert_amount))))
       (put KOMISSIYA_RASCHET (\<lambda>r. as_cell (calculate_commission fr r rates))))
       (put RAZNITSA (\<lambda>r. as_cell (difference r))))
       (put RAZNITSA (\<lambda>r. bindE (getitem r RAZNITSA) cell_round2)))"
    by (rule ext) (simp add: annotate_row_def)
  with c show ?thesis by simp
qed

lemma annotate_columns:
  assumes "annotate fr rates df = Inr df'"
  shows "set required_columns \<subseteq> set (columns df)"
    and "columns df' = add_column (add_column (add_column (add_column (add_column (columns df) c_AMOUNT)
          c_COMMISSION) KOMISSIYA_RASCHET) RAZNITSA) RAZNITSA"
  using assms
  by (auto simp: annotate_def Let_def bindE_eq_Inr assign_eq_Inr filter_empty_conv split: if_splits)

lemma round2_zero [simp]: "round2 (Fin 0) = Fin 0"
  by (simp add: round2_def round_even_def)

lemma rates_get_default:
  "rates DEFAULT = Some d \<Longrightarrow> rates_get rates k = Inr (case rates k of None \<Rightarrow> d | Some rate \<Rightarrow> rate)"
  by (simp add: rates_get_def dict_getitem_def)

text \<open>The effect of the five assignments on one row.\<close>

lemma annotate_row_Inr:
  assumes "annotate_row fr rates r = Inr r'"
  shows "\<exists>t a c amount commission f.
      getitem r c_TYPE = Inr t \<and> getitem r c_AMOUNT = Inr a \<and> getitem r c_COMMISSION = Inr c
    \<and> convert_amount a = Inr amount \<and> convert_amount c = Inr commission
    \<and> calculate_commission fr (setitem (setitem r c_AMOUNT (Flt amount)) c_COMMISSION (Flt commission)) rates = Inr f
    \<and> getitem r' c_TYPE = Inr t
    \<and> getitem r' KOMISSIYA_RASCHET = Inr (Flt f)
    \<and> getitem r' RAZNITSA = Inr (Flt (round2 (if t = Str POKUPKA then fsub commission f else Fin 0)))"
proof -
  from assms obtain r1 r2 r3 r4 where
    1: "put c_AMOUNT (\<lambda>r. as_cell (bindE (getitem r c_AMOUNT) convert_amount)) r = Inr r1" and
    2: "put c_COMMISSION (\<lambda>r. as_cell (bindE (getitem r c_COMMISSION) convert_amount)) r1 = Inr r2" and
    3: "put KOMISSIYA_RASCHET (\<lambda>r. as_cell (calculate_commission fr r rates)) r2 = Inr r3" and
    4: "put RAZNITSA (\<lambda>r. as_cell (difference r)) r3 = Inr r4" and
    5: "put RAZNITSA (\<lambda>r. bindE (getitem r RAZNITSA) cell_round2) r4 = Inr r'"
    unfolding annotate_row_def bindE_eq_Inr by blast
  from 1 obtain a amount where a: "getitem r c_AMOUNT = Inr a" "convert_amount a = Inr amount"
    and r1: "r1 = setitem r c_AMOUNT (Flt amount)"
    by (auto simp: put_def bindE_eq_Inr as_cell_eq_Inr)
  from 2 obtain c commission where c: "getitem r1 c_COMMISSION = Inr c" "convert_amount c = Inr commission"
    and r2: "r2 = setitem r1 c_COMMISSION (Flt commission)"
    by (auto simp: put_def bindE_eq_Inr as_cell_eq_Inr)
  from 3 obtain f where f: "calculate_commission fr r2 rates = Inr f"
    and r3: "r3 = setitem r2 KOMISSIYA_RASCHET (Flt f)"
    by (auto simp: put_def bindE_eq_Inr as_cell_eq_Inr)
  from 4 obtain d where d: "difference r3 = Inr d" and r4: "r4 = setitem r3 RAZNITSA (Flt d)"
    by (auto simp: put_def bindE_eq_Inr as_cell_eq_Inr)
  from 5 r4 have r': "r' = setitem r4 RAZNITSA (Flt (round2 d))"
    by (auto simp: put_def bindE_eq_Inr getitem_setitem cell_round2_def num_of_def)
  from f obtain t where t2: "getitem r2 c_TYPE = Inr t"
    by (auto simp: calculate_commission_def bindE_eq_Inr)
  then have t: "getitem r c_TYPE = Inr t"
    by (simp add: r2 r1 getitem_setitem columns_distinct columns_distinct [symmetric])
  from c have c0: "getitem r c_COMMISSION = Inr c"
    by (simp add: r1 getitem_setitem columns_distinct)
  have t3: "getitem r3 c_TYPE = Inr t"
    using t2 by (simp add: r3 getitem_setitem columns_distinct [symmetric])
  have g1: "getitem r3 c_COMMISSION = Inr (Flt commission)"
    by (simp add: r3 r2 getitem_setitem columns_distinct [symmetric])
  have g2: "getitem r3 KOMISSIYA_RASCHET = Inr (Flt f)"
    by (simp add: r3 getitem_setitem)
  have "difference r3 = Inr (if t = Str POKUPKA then fsub commission f else Fin 0)"
    by (simp add: difference_def t3 g1 g2 py_sub_def num_of_def)
  with d have dd: "d = (if t = Str POKUPKA then fsub commission f else Fin 0)"
    by simp
  have "getitem r' c_TYPE = Inr t"
    using t3 by (simp add: r' r4 getitem_setitem columns_distinct [symmetric])
  moreover have "getitem r' KOMISSIYA_RASCHET = Inr (Flt f)"
    by (simp add: r' r4 r3 getitem_setitem columns_distinct [symmetric])
  moreover have "getitem r' RAZNITSA = Inr (Flt (round2 d))"
    by (simp add: r' getitem_setitem)
  ultimately show ?thesis
    using t a c0 c(2) f dd unfolding r2 r1 by blast
qed


lemma calculate_commission_other:
  "getitem r c_TYPE = Inr t \<Longrightarrow> t \<noteq> Str POKUPKA \<Longrightarrow> calculate_commission fr r rates = Inr (Fin 0)"
  by (simp add: calculate_commission_def)

lemma calculate_commission_purchase:
  assumes "getitem r c_TYPE = Inr (Str POKUPKA)" "getitem r c_PMT_SYSTEM_CODE = Inr code"
    and "getitem r c_AMOUNT = Inr a" "convert_amount a = Inr amount" "rates DEFAULT = Some d"
  shows "calculate_commission fr r rates =
     Inr (round2 (fmul amount (case rates (py_upper (py_strip (py_str fr code))) of None \<Rightarrow> d | Some rate \<Rightarrow> rate)))"
  using assms by (simp add: calculate_commission_def commission_try_def rates_get_default)

lemma mapE_comp_conv:
  "mapE (\<lambda>x. bindE (f x) g) xs = Inr zs \<Longrightarrow> \<exists>ys. mapE f xs = Inr ys \<and> mapE g ys = Inr zs"
proof (induction xs arbitrary: zs)
  case Nil
  then show ?case by simp
next
  case (Cons x xs)
  from Cons.prems obtain y z zs' where y: "f x = Inr y" and z: "g y = Inr z"
    and zs': "mapE (\<lambda>x. bindE (f x) g) xs = Inr zs'" and eq: "zs = z # zs'"
    by (auto simp: bindE_eq_Inr)
  from Cons.IH [OF zs'] obtain ys where "mapE f xs = Inr ys" "mapE g ys = Inr zs'" by blast
  with y z eq show ?case by simp
qed

lemma annotate_of_rows:
  assumes "set required_columns \<subseteq> set (columns df)"
    and "mapE (annotate_row fr rates) (rows df) = Inr rs"
  shows "annotate fr rates df = Inr \<lparr>columns = add_column (add_column (add_column (add_column (add_column
      (columns df) c_AMOUNT) c_COMMISSION) KOMISSIYA_RASCHET) RAZNITSA) RAZNITSA, rows = rs\<rparr>"
proof -
  have "annotate_row fr rates = (\<lambda>r. bindE (bindE (bindE (bindE
       (put c_AMOUNT (\<lambda>r. as_cell (bindE (getitem r c_AMOUNT) convert_amount)) r)
       (put c_COMMISSION (\<lambda>r. as_cell (bindE (getitem r c_COMMISSION) convert_amount))))
       (put KOMISSIYA_RASCHET (\<lambda>r. as_cell (calculate_commission fr r rates))))
       (put RAZNITSA (\<lambda>r. as_cell (difference r))))
       (put RAZNITSA (\<lambda>r. bindE (getitem r RAZNITSA) cell_round2)))"
    by (rule ext) (simp add: annotate_row_def)
  with assms(2) have m: "mapE (\<lambda>r. bindE (bindE (bindE (bindE
       (put c_AMOUNT (\<lambda>r. as_cell (bindE (getitem r c_AMOUNT) convert_amount)) r)
       (put c_COMMISSION (\<lambda>r. as_cell (bindE (getitem r c_COMMISSION) convert_amount))))
       (put KOMISSIYA_RASCHET (\<lambda>r. as_cell (calculate_commission fr r rates))))
       (put RAZNITSA (\<lambda>r. as_cell (difference r))))
       (put RAZNITSA (\<lambda>r. bindE (getitem r RAZNITSA) cell_round2))) (rows df) = Inr rs"
    by simp
  from mapE_comp_conv [OF m] obtain r4 where m4: "mapE (\<lambda>r. bindE (bindE (bindE
       (put c_AMOUNT (\<lambda>r. as_cell (bindE (getitem r c_AMOUNT) convert_amount)) r)
       (put c_COMMISSION (\<lambda>r. as_cell (bindE (getitem r c_COMMISSION) convert_amount))))
       (put KOMISSIYA_RASCHET (\<lambda>r. as_cell (calculate_commission fr r rates))))
       (put RAZNITSA (\<lambda>r. as_cell (difference r)))) (rows df) = Inr r4"
    and s5: "mapE (put RAZNITSA (\<lambda>r. bindE (getitem r RAZNITSA) cell_round2)) r4 = Inr rs"
    by blast
  from mapE_comp_conv [OF m4] obtain r3 where m3: "mapE (\<lambda>r. bindE (bindE
       (put c_AMOUNT (\<lambda>r. as_cell (bindE (getitem r c_AMOUNT) convert_amount)) r)
       (put c_COMMISSION (\<lambda>r. as_cell (bindE (getitem r c_COMMISSION) convert_amount))))
       (put KOMISSIYA_RASCHET (\<lambda>r. as_cell (calculate_commission fr r rates)))) (rows df) = Inr r3"
    and s4: "mapE (put RAZNITSA (\<lambda>r. as_cell (difference r))) r3 = Inr r4"
    by blast
  from mapE_comp_conv [OF m3] obtain r2 where m2: "mapE (\<lambda>r. bindE
       (put c_AMOUNT (\<lambda>r. as_cell (bindE (getitem r c_AMOUNT) convert_amount)) r)
       (put c_COMMISSION (\<lambda>r. as_cell (bindE (getitem r c_COMMISSION) convert_amount)))) (rows df) = Inr r2"
    and s3: "mapE (put KOMISSIYA_RASCHET (\<lambda>r. as_cell (calculate_commission fr r rates))) r2 = Inr r3"
    by blast
  from mapE_comp_conv [OF m2] obtain r1 where
    s1: "mapE (put c_AMOUNT (\<lambda>r. as_cell (bindE (getitem r c_AMOUNT) convert_amount))) (rows df) = Inr r1"
    and s2: "mapE (put c_COMMISSION (\<lambda>r. as_cell (bindE (getitem r c_COMMISSION) convert_amount))) r1 = Inr r2"
    by blast
  from assms(1) have "filter (\<lambda>col. col \<notin> set (columns df)) required_columns = []"
    by (auto simp: filter_empty_conv)
  then show ?thesis
    by (simp add: annotate_def assign_def s1 s2 s3 s4 s5)
qed

lemma annotate_row_total:
  assumes "getitem r c_TYPE = Inr t" "getitem r c_AMOUNT = Inr a" "getitem r c_COMMISSION = Inr c"
    and "convert_amount a = Inr amount" "convert_amount c = Inr commission"
  shows "\<exists>r'. annotate_row fr rates r = Inr r'"
proof -
  let ?r1 = "setitem r c_AMOUNT (Flt amount)"
  let ?r2 = "setitem ?r1 c_COMMISSION (Flt commission)"
  have 1: "put c_AMOUNT (\<lambda>r. as_cell (bindE (getitem r c_AMOUNT) convert_amount)) r = Inr ?r1"
    by (simp add: put_def assms as_cell_def)
  have 2: "put c_COMMISSION (\<lambda>r. as_cell (bindE (getitem r c_COMMISSION) convert_amount)) ?r1 = Inr ?r2"
    by (simp add: put_def assms as_cell_def getitem_setitem columns_distinct)
  have t2: "getitem ?r2 c_TYPE = Inr t"
    by (simp add: assms getitem_setitem columns_distinct [symmetric])
  obtain f where f: "calculate_commission fr ?r2 rates = Inr f"
    by (cases "t = Str POKUPKA"; cases "commission_try fr ?r2 rates")
      (simp_all add: calculate_commission_def t2)
  let ?r3 = "setitem ?r2 KOMISSIYA_RASCHET (Flt f)"
  have 3: "put KOMISSIYA_RASCHET (\<lambda>r. as_cell (calculate_commission fr r rates)) ?r2 = Inr ?r3"
    by (simp add: put_def f as_cell_def)
  have t3: "getitem ?r3 c_TYPE = Inr t"
    using t2 by (simp add: getitem_setitem columns_distinct [symmetric])
  have g1: "getitem ?r3 c_COMMISSION = Inr (Flt commission)"
    by (simp add: getitem_setitem columns_distinct [symmetric])
  have g2: "getitem ?r3 KOMISSIYA_RASCHET = Inr (Flt f)"
    by (simp add: getitem_setitem)
  have "difference ?r3 = Inr (if t = Str POKUPKA then fsub commission f else Fin 0)"
    by (simp add: difference_def t3 g1 g2 py_sub_def num_of_def)
  then obtain d where d: "difference ?r3 = Inr d" ..
  let ?r4 = "setitem ?r3 RAZNITSA (Flt d)"
  have 4: "put RAZNITSA (\<lambda>r. as_cell (difference r)) ?r3 = Inr ?r4"
    by (simp add: put_def d as_cell_def)
  have 5: "put RAZNITSA (\<lambda>r. bindE (getitem r RAZNITSA) cell_round2) ?r4
      = Inr (setitem ?r4 RAZNITSA (Flt (round2 d)))"
    by (simp add: put_def getitem_setitem cell_round2_def num_of_def)
  show ?thesis
    unfolding annotate_row_def by (simp only: 1 2 3 4 5 bindE_Inr) blast
qed


lemma filter_marked: "map fst (filter snd (map (\<lambda>r. (r, P r)) xs)) = filter P xs"
  by (induction xs) simp_all

lemma delta_Flt: "getitem r RAZNITSA = Inr (Flt x) \<Longrightarrow> delta r = Some x"
  by (simp add: delta_def)

lemma fee_Flt: "getitem r KOMISSIYA_RASCHET = Inr (Flt x) \<Longrightarrow> fee r = Some x"
  by (simp add: fee_def)

lemma delta_Some: "delta r = Some x \<Longrightarrow> getitem r RAZNITSA = Inr (Flt x)"
  by (auto simp: delta_def split: sum.splits cell.splits)

lemma discrepancy_rows_eq:
  assumes "\<And>r. r \<in> set (rows df) \<Longrightarrow> \<exists>x. delta r = Some x"
  shows "discrepancy_rows df = Inr (filter flagged (rows df))"
proof -
  have "mapE (\<lambda>r. bindE (getitem r RAZNITSA) (\<lambda>v. Inr (r, cell_ne_zero v))) (rows df)
      = Inr (map (\<lambda>r. (r, flagged r)) (rows df))"
  proof (rule mapE_map)
    fix r assume "r \<in> set (rows df)"
    from assms [OF this] obtain x where x: "delta r = Some x" ..
    then show "bindE (getitem r RAZNITSA) (\<lambda>v. Inr (r, cell_ne_zero v)) = Inr (r, flagged r)"
      by (simp add: delta_Some flagged_def cell_ne_zero_def num_of_def)
  qed
  then show ?thesis
    by (simp add: discrepancy_rows_def filter_marked)
qed

lemma annotate_delta:
  assumes "annotate fr rates df = Inr df'" "r' \<in> set (rows df')"
  shows "\<exists>x. delta r' = Some x"
proof -
  note m = annotate_rows [OF assms(1)]
  from assms(2) obtain i where i: "i < length (rows df')" "rows df' ! i = r'"
    by (auto simp: in_set_conv_nth)
  with mapE_length [OF m] have "i < length (rows df)" by simp
  from mapE_nth [OF m this] i have "annotate_row fr rates (rows df ! i) = Inr r'" by simp
  from annotate_row_Inr [OF this] show ?thesis
    by (auto dest: delta_Flt)
qed

lemma annotate_columns_nonempty: "annotate fr rates df = Inr df' \<Longrightarrow> columns df' \<noteq> []"
  by (auto simp: annotate_columns(2) add_column_def)

lemma reconcile_eq:
  assumes "read_file_with_encoding w p = Inr df" "annotate fr rates df = Inr df'"
  shows "reconcile fr w p rates = Inr (df', tagged p df')"
  using assms annotate_columns_nonempty [OF assms(2)]
  by (simp add: reconcile_def discrepancy_rows_eq [OF annotate_delta [OF assms(2)]] frame_empty_def
      tagged_def Let_def)

lemma reconcile_Inr:
  assumes "reconcile fr w p rates = Inr (df', ds)"
  shows "\<exists>df. read_file_with_encoding w p = Inr df \<and> annotate fr rates df = Inr df' \<and> ds = tagged p df'"
proof -
  from assms obtain df df1 where df: "read_file_with_encoding w p = Inr df"
    and a: "annotate fr rates df = Inr df1"
    by (auto simp: reconcile_def bindE_eq_Inr)
  from reconcile_eq [OF df a] assms show ?thesis
    using df a by simp
qed

lemma reconcile_read_fails:
  "read_file_with_encoding w p = Inl e \<Longrightarrow> reconcile fr w p rates = Inl e"
  by (simp add: reconcile_def)

lemma reconcile_annotate_fails:
  "read_file_with_encoding w p = Inr df \<Longrightarrow> annotate fr rates df = Inl e \<Longrightarrow> reconcile fr w p rates = Inl e"
  by (simp add: reconcile_def)

lemma tagged_not_empty: "rows (tagged p df) \<noteq> [] \<Longrightarrow> columns (tagged p df) \<noteq> []"
  by (auto simp: tagged_def add_column_def split: if_splits)

lemma rows_tagged: "rows (tagged p df) = map (\<lambda>r. setitem r FAIL (Str (basename p))) (filter flagged (rows df))"
  by (simp add: tagged_def)

lemma process_file_rows:
  "rows (fst (process_file fr w p res rates)) = rows res @ file_discrepancies fr w rates p"
proof (cases "reconcile fr w p rates")
  case (Inl e)
  then show ?thesis by (simp add: process_file_def file_discrepancies_def)
next
  case (Inr pr)
  obtain df ds where pr: "pr = (df, ds)" by (cases pr)
  with Inr have r: "reconcile fr w p rates = Inr (df, ds)" by simp
  from reconcile_Inr [OF r] have "ds = tagged p df" by blast
  with tagged_not_empty have "rows ds \<noteq> [] \<Longrightarrow> columns ds \<noteq> []" by simp
  with r show ?thesis
    by (auto simp: process_file_def file_discrepancies_def Let_def pd_concat_def frame_empty_def)
qed

lemma process_file_sound:
  "rows res \<noteq> [] \<longrightarrow> columns res \<noteq> [] \<Longrightarrow>
   rows (fst (process_file fr w p res rates)) \<noteq> [] \<longrightarrow> columns (fst (process_file fr w p res rates)) \<noteq> []"
proof (cases "reconcile fr w p rates")
  case (Inl e)
  assume "rows res \<noteq> [] \<longrightarrow> columns res \<noteq> []"
  with Inl show ?thesis by (simp add: process_file_def)
next
  case (Inr pr)
  assume a: "rows res \<noteq> [] \<longrightarrow> columns res \<noteq> []"
  obtain df ds where pr: "pr = (df, ds)" by (cases pr)
  with Inr have r: "reconcile fr w p rates = Inr (df, ds)" by simp
  from reconcile_Inr [OF r] have "ds = tagged p df" by blast
  with tagged_not_empty have "rows ds \<noteq> [] \<Longrightarrow> columns ds \<noteq> []" by simp
  with r a show ?thesis
    by (auto simp: process_file_def Let_def pd_concat_def frame_empty_def)
qed

lemma process_files_rows:
  "rows (fst (process_files fr w rates ps (res, written)))
     = rows res @ concat (map (file_discrepancies fr w rates) ps)"
proof (induction ps arbitrary: res written)
  case Nil
  then show ?case by simp
next
  case (Cons p ps)
  obtain res' out where pf: "process_file fr w p res rates = (res', out)"
    by (cases "process_file fr w p res rates")
  from process_file_rows [of fr w p res rates] pf
  have "rows res' = rows res @ file_discrepancies fr w rates p" by simp
  with Cons.IH [of res'] pf show ?case by simp
qed

lemma process_files_sound:
  "rows res \<noteq> [] \<longrightarrow> columns res \<noteq> [] \<Longrightarrow>
   rows (fst (process_files fr w rates ps (res, written))) \<noteq> []
     \<longrightarrow> columns (fst (process_files fr w rates ps (res, written))) \<noteq> []"
proof (induction ps arbitrary: res written)
  case Nil
  then show ?case by simp
next
  case (Cons p ps)
  obtain res' out where pf: "process_file fr w p res rates = (res', out)"
    by (cases "process_file fr w p res rates")
  from process_file_sound [OF Cons.prems, of fr w p rates] pf
  have "rows res' \<noteq> [] \<longrightarrow> columns res' \<noteq> []" by simp
  from Cons.IH [OF this] pf show ?case by simp
qed

lemma process_files_empty_iff:
  "frame_empty (fst (process_files fr w rates ps (empty_frame, [])))
     \<longleftrightarrow> concat (map (file_discrepancies fr w rates) ps) = []"
proof -
  have "rows empty_frame \<noteq> [] \<longrightarrow> columns empty_frame \<noteq> []"
    by (simp add: empty_frame_def)
  from process_files_sound [OF this, of fr w rates ps "[]"]
    process_files_rows [of fr w rates ps empty_frame "[]"]
  show ?thesis
    by (auto simp: frame_empty_def empty_frame_def)
qed


section \<open>The amount normalisation, verified\<close>

lemma u_amount_text: "u ''1 234,56'' = [49, 32, 50, 51, 52, 44, 53, 54]"
  by (simp add: u_def)

lemma u_abc: "u ''abc'' = [97, 98, 99]"
  by (simp add: u_def)

lemma parse_exponent_Nil: "parse_exponent [] = Some 0"
  by (simp add: parse_exponent_def)

lemma parse_decimal_1234_56: "parse_decimal [49, 50, 51, 52, 46, 53, 54] = Some 1234.56"
  by (simp add: parse_decimal_def is_digit_def parse_exponent_Nil digits_val_def)

lemma parse_decimal_abc: "parse_decimal [97, 98, 99] = None"
  by (simp add: parse_decimal_def is_digit_def)

lemma float_of_str_1234_56: "float_of_str [49, 50, 51, 52, 46, 53, 54] = Some (Fin 1234.56)"
proof -
  have 1: "float_strip [49, 50, 51, 52, 46, 53, 54] = [49, 50, 51, 52, 46, 53, 54]"
    by (simp add: float_strip_def float_space_def is_space_def)
  have 2: "drop_underscores 0 [49, 50, 51, 52, 46, 53, 54] = Some [49, 50, 51, 52, 46, 53, 54]"
    by (simp add: is_digit_def)
  have 3: "parse_unsigned [49, 50, 51, 52, 46, 53, 54] = Some (Fin 1234.56)"
    by (simp add: parse_unsigned_def lower_ascii_def u_def parse_decimal_1234_56)
  show ?thesis
    by (simp add: float_of_str_def 1 2 3)
qed

lemma float_of_str_abc: "float_of_str [97, 98, 99] = None"
proof -
  have 1: "float_strip [97, 98, 99] = [97, 98, 99]"
    by (simp add: float_strip_def float_space_def is_space_def)
  have 2: "drop_underscores 0 [97, 98, 99] = Some [97, 98, 99]"
    by (simp add: is_digit_def)
  have 3: "parse_unsigned [97, 98, 99] = None"
    by (simp add: parse_unsigned_def lower_ascii_def u_def parse_decimal_abc)
  show ?thesis
    by (simp add: float_of_str_def 1 2 3)
qed

lemma convert_amount_Str:
  "convert_amount (Str s) =
     (case float_of_str (commas_to_points (remove_spaces s)) of None \<Rightarrow> Inl ValueError | Some x \<Rightarrow> Inr x)"
  by (simp add: convert_amount_def py_float_def)

lemma convert_amount_Flt [simp]: "convert_amount (Flt x) = Inr x"
  by (simp add: convert_amount_def py_float_def)

lemma convert_amount_text: "convert_amount (Str (u ''1 234,56'')) = Inr (Fin 1234.56)"
  by (simp add: convert_amount_Str u_amount_text remove_spaces_def commas_to_points_def float_of_str_1234_56)

lemma convert_amount_abc: "convert_amount (Str (u ''abc'')) = Inl ValueError"
  by (simp add: convert_amount_Str u_abc remove_spaces_def commas_to_points_def float_of_str_abc)



lemma clean_twice: "commas_to_points (remove_spaces (commas_to_points (remove_spaces s))) = commas_to_points (remove_spaces s)"
  by (induction s) (simp_all add: commas_to_points_def remove_spaces_def)

text \<open>
  C9: the normalisation is idempotent: whenever \<^verbatim>\<open>convert_amount\<close> succeeds on a value,
  applying it again to its result succeeds with the same result; and a text that has
  been cleaned already (no space, a point for each comma) converts as the text it was
  cleaned from.
\<close>

theorem convert_amount_idempotent:
  assumes "convert_amount v = Inr x"
  shows "bindE (convert_amount v) (\<lambda>y. convert_amount (Flt y)) = convert_amount v
    \<and> convert_amount (Flt x) = Inr x
    \<and> convert_amount (Str (commas_to_points (remove_spaces s))) = convert_amount (Str s)"
proof (intro conjI)
  from assms show "bindE (convert_amount v) (\<lambda>y. convert_amount (Flt y)) = convert_amount v"
    by simp
  show "convert_amount (Flt x) = Inr x"
    by simp
  show "convert_amount (Str (commas_to_points (remove_spaces s))) = convert_amount (Str s)"
    by (simp only: convert_amount_Str clean_twice)
qed

theorem convert_amount_idempotent_witness:
  "convert_amount (Str (u ''1 234,56'')) = Inr (Fin 1234.56)
   \<and> bindE (convert_amount (Str (u ''1 234,56''))) (\<lambda>y. convert_amount (Flt y))
       = convert_amount (Str (u ''1 234,56''))
   \<and> convert_amount (Flt (Fin 1234.56)) = Inr (Fin 1234.56)"
  using convert_amount_idempotent [OF convert_amount_text] convert_amount_text by blast

section \<open>The fee and the delta of a row\<close>

lemma reconcile_rows:
  assumes "read_file_with_encoding w p = Inr df" "reconcile fr w p rates = Inr (df', ds)" "i < length (rows df)"
  shows "length (rows df') = length (rows df)" "annotate_row fr rates (rows df ! i) = Inr (rows df' ! i)"
proof -
  from reconcile_Inr [OF assms(2)] assms(1) have a: "annotate fr rates df = Inr df'" by auto
  note m = annotate_rows [OF a]
  from mapE_length [OF m] show "length (rows df') = length (rows df)" .
  from mapE_nth [OF m assms(3)] show "annotate_row fr rates (rows df ! i) = Inr (rows df' ! i)" .
qed



lemma floor_num: "\<lfloor>(numeral a / numeral b :: rat)\<rfloor> = numeral a div numeral b"
  using floor_divide_of_int_eq [of "numeral a" "numeral b", where ?'a = rat] by simp


lemma default_rates_DEFAULT: "default_rates DEFAULT = Some (Fin 0)"
  by (simp add: default_rates_def)

lemma default_rates_MIR: "default_rates (u ''MIR'') = Some (Fin 0.0142)"
  by (simp add: default_rates_def DEFAULT_def u_def)

lemma default_rates_JCB: "default_rates (u ''JCB'') = None"
  by (simp add: default_rates_def DEFAULT_def u_def)

lemma card_type_mir: "py_upper (py_strip (u '' mir '')) = u ''MIR''"
  by (simp add: py_upper_def py_strip_def is_space_def upper_char_def u_def)

lemma card_type_JCB: "py_upper (py_strip (u ''JCB'')) = u ''JCB''"
  by (simp add: py_upper_def py_strip_def is_space_def upper_char_def u_def)

lemma convert_amount_500: "convert_amount (Str (u ''500'')) = Inr (Fin 500)"
proof -
  have 0: "commas_to_points (remove_spaces (u ''500'')) = [53, 48, 48]"
    by (simp add: commas_to_points_def remove_spaces_def u_def)
  have 1: "float_strip [53, 48, 48] = [53, 48, 48]"
    by (simp add: float_strip_def float_space_def is_space_def)
  have 2: "drop_underscores 0 [53, 48, 48] = Some [53, 48, 48]"
    by (simp add: is_digit_def)
  have 3: "parse_decimal [53, 48, 48] = Some 500"
    by (simp add: parse_decimal_def is_digit_def parse_exponent_Nil digits_val_def)
  have 4: "parse_unsigned [53, 48, 48] = Some (Fin 500)"
    by (simp add: parse_unsigned_def lower_ascii_def u_def 3)
  have "float_of_str [53, 48, 48] = Some (Fin 500)"
    by (simp add: float_of_str_def 1 2 4)
  then show ?thesis
    by (simp add: convert_amount_Str 0)
qed

lemma row_mir_cells:
  "getitem row_mir c_TYPE = Inr (Str POKUPKA)"
  "getitem row_mir c_AMOUNT = Inr (Str (u ''1 234,56''))"
  "getitem row_mir c_COMMISSION = Inr (Flt (Fin 17.5))"
  "getitem row_mir c_PMT_SYSTEM_CODE = Inr (Str (u '' mir ''))"
  by (simp_all add: getitem_def row_mir_def columns_distinct columns_distinct [symmetric])

lemma row_lower_cells:
  "getitem row_lower c_TYPE = Inr (Str pokupka_lower)"
  "getitem row_lower c_AMOUNT = Inr (Str (u ''500''))"
  "getitem row_lower c_COMMISSION = Inr (Flt (Fin 5))"
  "getitem row_lower c_PMT_SYSTEM_CODE = Inr (Str (u ''MIR''))"
  by (simp_all add: getitem_def row_lower_def columns_distinct columns_distinct [symmetric])

lemma row_jcb_cells:
  "getitem row_jcb c_TYPE = Inr (Str POKUPKA)"
  "getitem row_jcb c_AMOUNT = Inr (Str (u ''500''))"
  "getitem row_jcb c_COMMISSION = Inr (Flt (Fin 5))"
  "getitem row_jcb c_PMT_SYSTEM_CODE = Inr (Str (u ''JCB''))"
  by (simp_all add: getitem_def row_jcb_def columns_distinct columns_distinct [symmetric])

lemma row_bad_cells:
  "getitem row_bad c_TYPE = Inr (Str POKUPKA)"
  "getitem row_bad c_AMOUNT = Inr (Str (u ''abc''))"
  "getitem row_bad c_COMMISSION = Inr (Flt (Fin 1))"
  "getitem row_bad c_PMT_SYSTEM_CODE = Inr (Str (u ''MIR''))"
  by (simp_all add: getitem_def row_bad_def columns_distinct columns_distinct [symmetric])

lemma pokupka_lower_differs: "pokupka_lower \<noteq> POKUPKA" "py_upper (py_strip pokupka_lower) = POKUPKA"
  by (simp_all add: pokupka_lower_def POKUPKA_def py_upper_def py_strip_def is_space_def upper_char_def)

lemma read_example [simp]: "read_file_with_encoding (example_world rd ok) p = rd"
  "excel_writer_ok (example_world rd ok) p = ok"
  by (simp_all add: example_world_def)

lemma reconcile_frame_mir:
  "\<exists>df' ds. reconcile fr (example_world (Inr frame_mir) ok) p rates = Inr (df', ds)"
proof -
  from annotate_row_total [OF row_mir_cells(1,2,3) convert_amount_text convert_amount_Flt]
  obtain r1 where r1: "annotate_row fr rates row_mir = Inr r1" by blast
  from annotate_row_total [OF row_lower_cells(1,2,3) convert_amount_500 convert_amount_Flt]
  obtain r2 where r2: "annotate_row fr rates row_lower = Inr r2" by blast
  have "mapE (annotate_row fr rates) (rows frame_mir) = Inr [r1, r2]"
    by (simp add: frame_mir_def r1 r2)
  moreover have "set required_columns \<subseteq> set (columns frame_mir)"
    by (simp add: frame_mir_def)
  ultimately have "\<exists>df'. annotate fr rates frame_mir = Inr df'"
    using annotate_of_rows by blast
  then obtain df' where "annotate fr rates frame_mir = Inr df'" ..
  from reconcile_eq [OF _ this, of "example_world (Inr frame_mir) ok" p] show ?thesis
    by simp
qed




section \<open>The comparison with the purchase marker\<close>

lemma getitem_tag_delta: "delta (setitem r FAIL v) = delta r"
  by (simp add: delta_def getitem_setitem columns_distinct [symmetric])

lemma flagged_tag: "flagged (setitem r FAIL v) = flagged r"
  by (simp add: flagged_def getitem_tag_delta)

lemma delta_zero_not_flagged: "delta r = Some (Fin 0) \<Longrightarrow> \<not> flagged r"
  by (simp add: flagged_def ne_zero_def)

lemma discrepancies_flagged:
  assumes "reconcile fr w p rates = Inr (df', ds)" "r \<in> set (rows ds)"
  shows "flagged r"
proof -
  from reconcile_Inr [OF assms(1)] have "ds = tagged p df'" by blast
  with assms(2) show ?thesis
    by (auto simp: rows_tagged flagged_tag)
qed

text \<open>
  C10: the type of a row is compared with the marker by plain equality of strings,
  nothing is stripped and no case is folded. A row of a processed file whose type differs
  from the marker in the case of its letters or in surrounding white space only is no
  purchase: \<^verbatim>\<open>calculate_commission\<close> returns 0 for it, its computed fee and its delta are
  0, and it is not among the discrepancies (each of which has a delta other than 0). The
  code of the card network, in contrast, is stripped and put in upper case before the
  rate is looked up.
\<close>

theorem variant_of_marker_is_not_purchase:
  assumes "read_file_with_encoding w file_path = Inr df"
    and "reconcile fr w file_path commission_rates = Inr (df', discrepancies)"
    and "i < length (rows df)"
    and "getitem (rows df ! i) c_TYPE = Inr (Str t)"
    and "py_upper (py_strip t) = POKUPKA" and "t \<noteq> POKUPKA"
  shows "calculate_commission fr (rows df ! i) commission_rates = Inr (Fin 0)
    \<and> fee (rows df' ! i) = Some (Fin 0) \<and> delta (rows df' ! i) = Some (Fin 0)
    \<and> \<not> flagged (rows df' ! i)
    \<and> (\<forall>r\<in>set (rows discrepancies). flagged r \<and> delta r \<noteq> Some (Fin 0))
    \<and> (\<forall>r code a amount d.
          getitem r c_TYPE = Inr (Str POKUPKA) \<and> getitem r c_PMT_SYSTEM_CODE = Inr (Str code)
          \<and> getitem r c_AMOUNT = Inr a \<and> convert_amount a = Inr amount \<and> commission_rates DEFAULT = Some d
          \<longrightarrow> calculate_commission fr r commission_rates =
                Inr (round2 (fmul amount (case commission_rates (py_upper (py_strip code)) of
                                            None \<Rightarrow> d | Some rate \<Rightarrow> rate))))"
proof -
  let ?r = "rows df ! i" and ?r' = "rows df' ! i"
  from assms(6) have ne: "Str t \<noteq> Str POKUPKA" by simp
  have 1: "calculate_commission fr ?r commission_rates = Inr (Fin 0)"
    by (rule calculate_commission_other [OF assms(4) ne])
  note rr = reconcile_rows [OF assms(1,2,3)]
  from annotate_row_Inr [OF rr(2)] assms(4) obtain amount commission f where
    f: "calculate_commission fr (setitem (setitem ?r c_AMOUNT (Flt amount)) c_COMMISSION (Flt commission))
        commission_rates = Inr f"
    and kf: "getitem ?r' KOMISSIYA_RASCHET = Inr (Flt f)"
    and kd: "getitem ?r' RAZNITSA = Inr (Flt (round2 (if Str t = Str POKUPKA then fsub commission f else Fin 0)))"
    by auto
  have "getitem (setitem (setitem ?r c_AMOUNT (Flt amount)) c_COMMISSION (Flt commission)) c_TYPE = Inr (Str t)"
    by (simp add: assms(4) getitem_setitem columns_distinct [symmetric])
  from calculate_commission_other [OF this ne] f have "f = Fin 0" by simp
  with kf kd assms(6) have 2: "fee ?r' = Some (Fin 0)" and 3: "delta ?r' = Some (Fin 0)"
    by (simp_all add: fee_Flt delta_Flt)
  have 4: "\<not> flagged ?r'"
    by (rule delta_zero_not_flagged [OF 3])
  have 5: "\<forall>r\<in>set (rows discrepancies). flagged r \<and> delta r \<noteq> Some (Fin 0)"
    using discrepancies_flagged [OF assms(2)] delta_zero_not_flagged by blast
  have 6: "calculate_commission fr r commission_rates =
        Inr (round2 (fmul amount (case commission_rates (py_upper (py_strip code)) of
                                            None \<Rightarrow> d | Some rate \<Rightarrow> rate)))"
    if "getitem r c_TYPE = Inr (Str POKUPKA)" "getitem r c_PMT_SYSTEM_CODE = Inr (Str code)"
       "getitem r c_AMOUNT = Inr a" "convert_amount a = Inr amount" "commission_rates DEFAULT = Some d"
    for r code a amount d
    using calculate_commission_purchase [where fr = fr and rates = commission_rates, OF that]
    by (simp add: py_str_def)
  from 1 2 3 4 5 6 show ?thesis by blast
qed

theorem variant_of_marker_is_not_purchase_witness:
  "\<exists>df' ds. reconcile repr0 (example_world (Inr frame_mir) True) (u ''/data/a.csv'') default_rates = Inr (df', ds)
     \<and> getitem (rows frame_mir ! 1) c_TYPE = Inr (Str pokupka_lower)
     \<and> py_upper (py_strip pokupka_lower) = POKUPKA \<and> pokupka_lower \<noteq> POKUPKA
     \<and> calculate_commission repr0 (rows frame_mir ! 1) default_rates = Inr (Fin 0)
     \<and> fee (rows df' ! 1) = Some (Fin 0) \<and> delta (rows df' ! 1) = Some (Fin 0)
     \<and> \<not> flagged (rows df' ! 1)
     \<and> calculate_commission repr0 row_mir default_rates = Inr (Fin 17.53)"
proof -
  let ?w = "example_world (Inr frame_mir) True" and ?p = "u ''/data/a.csv''"
  from reconcile_frame_mir obtain df' ds where r: "reconcile repr0 ?w ?p default_rates = Inr (df', ds)"
    by blast
  have rd: "read_file_with_encoding ?w ?p = Inr frame_mir" by simp
  have i1: "1 < length (rows frame_mir)"
    by (simp add: frame_mir_def)
  have t: "getitem (rows frame_mir ! 1) c_TYPE = Inr (Str pokupka_lower)"
    by (simp add: frame_mir_def row_lower_cells)
  note th = variant_of_marker_is_not_purchase [OF rd r i1 t pokupka_lower_differs(2,1)]
  from th have "calculate_commission repr0 row_mir default_rates =
      Inr (round2 (fmul (Fin 1234.56) (case default_rates (py_upper (py_strip (u '' mir ''))) of
                                            None \<Rightarrow> Fin 0 | Some rate \<Rightarrow> rate)))"
    using row_mir_cells convert_amount_text default_rates_DEFAULT by blast
  moreover have "round2 (fmul (Fin 1234.56) (Fin 0.0142)) = Fin 17.53"
    by (simp add: round2_def fmul_def round_even_def Let_def floor_num)
  ultimately have "calculate_commission repr0 row_mir default_rates = Inr (Fin 17.53)"
    by (simp add: card_type_mir default_rates_MIR)
  with th r t pokupka_lower_differs show ?thesis by blast
qed



section \<open>Failures of a file\<close>

lemma basename_a_csv: "basename (u ''/data/a.csv'') = u ''a.csv''"
  by (simp add: basename_def u_def)

lemma calculate_commission_jcb:
  "getitem r c_TYPE = Inr (Str POKUPKA) \<Longrightarrow> getitem r c_PMT_SYSTEM_CODE = Inr (Str (u ''JCB'')) \<Longrightarrow>
   getitem r c_AMOUNT = Inr (Flt (Fin 500)) \<Longrightarrow> calculate_commission fr r default_rates = Inr (Fin 0)"
  using calculate_commission_purchase [where fr = fr and rates = default_rates and r = r and amount = "Fin 500",
      OF _ _ _ convert_amount_Flt default_rates_DEFAULT]
  by (simp add: py_str_def card_type_JCB default_rates_JCB fmul_def)

lemma annotate_row_jcb: "annotate_row fr default_rates row_jcb = Inr row_jcb_annotated"
proof -
  let ?r1 = "[(c_TYPE, Str POKUPKA), (c_AMOUNT, Flt (Fin 500)), (c_COMMISSION, Flt (Fin 5)),
     (c_PMT_SYSTEM_CODE, Str (u ''JCB''))]"
  let ?r3 = "[(c_TYPE, Str POKUPKA), (c_AMOUNT, Flt (Fin 500)), (c_COMMISSION, Flt (Fin 5)),
     (c_PMT_SYSTEM_CODE, Str (u ''JCB'')), (KOMISSIYA_RASCHET, Flt (Fin 0))]"
  let ?r4 = "[(c_TYPE, Str POKUPKA), (c_AMOUNT, Flt (Fin 500)), (c_COMMISSION, Flt (Fin 5)),
     (c_PMT_SYSTEM_CODE, Str (u ''JCB'')), (KOMISSIYA_RASCHET, Flt (Fin 0)), (RAZNITSA, Flt (Fin 5))]"
  have 1: "put c_AMOUNT (\<lambda>r. as_cell (bindE (getitem r c_AMOUNT) convert_amount)) row_jcb = Inr ?r1"
    by (simp add: put_def row_jcb_cells convert_amount_500 as_cell_def)
      (simp add: setitem_def row_jcb_def columns_distinct columns_distinct [symmetric])
  have g1: "getitem ?r1 c_TYPE = Inr (Str POKUPKA)" "getitem ?r1 c_AMOUNT = Inr (Flt (Fin 500))"
    "getitem ?r1 c_COMMISSION = Inr (Flt (Fin 5))" "getitem ?r1 c_PMT_SYSTEM_CODE = Inr (Str (u ''JCB''))"
    by (simp_all add: getitem_def columns_distinct columns_distinct [symmetric])
  have 2: "put c_COMMISSION (\<lambda>r. as_cell (bindE (getitem r c_COMMISSION) convert_amount)) ?r1 = Inr ?r1"
    by (simp add: put_def g1 as_cell_def)
      (simp add: setitem_def columns_distinct columns_distinct [symmetric])
  have 3: "put KOMISSIYA_RASCHET (\<lambda>r. as_cell (calculate_commission fr r default_rates)) ?r1 = Inr ?r3"
    by (simp add: put_def calculate_commission_jcb [OF g1(1,4,2)] as_cell_def)
      (simp add: setitem_def columns_distinct columns_distinct [symmetric])
  have g3: "getitem ?r3 c_TYPE = Inr (Str POKUPKA)" "getitem ?r3 c_COMMISSION = Inr (Flt (Fin 5))"
    "getitem ?r3 KOMISSIYA_RASCHET = Inr (Flt (Fin 0))"
    by (simp_all add: getitem_def columns_distinct columns_distinct [symmetric])
  have d: "difference ?r3 = Inr (Fin 5)"
    by (simp add: difference_def g3 py_sub_def num_of_def fsub_def)
  have 4: "put RAZNITSA (\<lambda>r. as_cell (difference r)) ?r3 = Inr ?r4"
    by (simp add: put_def d as_cell_def)
      (simp add: setitem_def columns_distinct columns_distinct [symmetric])
  have g4: "getitem ?r4 RAZNITSA = Inr (Flt (Fin 5))"
    by (simp add: getitem_def columns_distinct columns_distinct [symmetric])
  have r5: "round2 (Fin 5) = Fin 5"
    by (simp add: round2_def round_even_def)
  have 5: "put RAZNITSA (\<lambda>r. bindE (getitem r RAZNITSA) cell_round2) ?r4 = Inr ?r4"
    by (simp add: put_def g4 cell_round2_def num_of_def r5)
      (simp add: setitem_def columns_distinct columns_distinct [symmetric])
  show ?thesis
    unfolding annotate_row_def by (simp only: 1 2 3 4 5 bindE_Inr) (simp add: row_jcb_annotated_def)
qed

lemma flagged_jcb: "flagged row_jcb_annotated"
  by (simp add: flagged_def delta_def getitem_def row_jcb_annotated_def ne_zero_def
      columns_distinct columns_distinct [symmetric])

lemma annotate_frame_jcb:
  "\<exists>cs. annotate fr default_rates frame_jcb = Inr \<lparr>columns = cs, rows = [row_jcb_annotated]\<rparr>"
proof -
  have "mapE (annotate_row fr default_rates) (rows frame_jcb) = Inr [row_jcb_annotated]"
    by (simp add: frame_jcb_def annotate_row_jcb)
  moreover have "set required_columns \<subseteq> set (columns frame_jcb)"
    by (simp add: frame_jcb_def)
  ultimately show ?thesis
    using annotate_of_rows by blast
qed

lemma file_discrepancies_jcb:
  "file_discrepancies fr (example_world (Inr frame_jcb) ok) default_rates (u ''/data/a.csv'') = [row_jcb_reported]"
proof -
  from annotate_frame_jcb obtain cs where
    a: "annotate fr default_rates frame_jcb = Inr \<lparr>columns = cs, rows = [row_jcb_annotated]\<rparr>" ..
  have "setitem row_jcb_annotated FAIL (Str (u ''a.csv'')) = row_jcb_reported"
    by (simp add: setitem_def row_jcb_reported_def row_jcb_annotated_def
        columns_distinct columns_distinct [symmetric])
      (simp add: FAIL_def c_TYPE_def c_AMOUNT_def c_COMMISSION_def c_PMT_SYSTEM_CODE_def
        KOMISSIYA_RASCHET_def u_def)
  with reconcile_eq [OF _ a, of "example_world (Inr frame_jcb) ok" "u ''/data/a.csv''"]
  show ?thesis
    by (simp add: file_discrepancies_def rows_tagged flagged_jcb basename_a_csv)
qed

lemma annotate_bad_cell:
  assumes "r \<in> set (rows df)" "k = c_AMOUNT \<or> k = c_COMMISSION"
    and "getitem r k = Inr a" "convert_amount a = Inl e"
  shows "\<exists>e'. annotate fr rates df = Inl e'"
proof (cases "annotate fr rates df")
  case (Inl e')
  then show ?thesis by blast
next
  case (Inr df')
  from assms(1) obtain i where i: "i < length (rows df)" "rows df ! i = r"
    by (auto simp: in_set_conv_nth)
  from mapE_nth [OF annotate_rows [OF Inr] i(1)] i(2)
  have "annotate_row fr rates r = Inr (rows df' ! i)" by simp
  from annotate_row_Inr [OF this] assms(2,3,4) show ?thesis by auto
qed

lemma process_file_reconcile_fails:
  "reconcile fr w p rates = Inl e \<Longrightarrow> process_file fr w p res rates = (res, None)"
  by (simp add: process_file_def)

lemma annotate_missing_column:
  "\<not> set required_columns \<subseteq> set (columns df) \<Longrightarrow> annotate fr rates df = Inl ValueError"
  by (auto simp: annotate_def Let_def filter_empty_conv)

text \<open>
  C4, as the code has it: a file whose processing fails while it is read, while its
  columns are checked or while its amounts and recorded fees are normalised leaves the
  collection of discrepancies as it was, and no annotated table is written. When it is
  the writing of the annotated table that fails, the discrepancies of the file, appended
  at line 130 before the writing, are in the collection that is returned: it is unchanged
  only if the file has none.
\<close>

theorem early_failure_leaves_collection:
  "(\<forall>e. read_file_with_encoding w file_path = Inl e \<longrightarrow>
        process_file fr w file_path results_df commission_rates = (results_df, None))
   \<and> (\<forall>df. read_file_with_encoding w file_path = Inr df \<and> \<not> set required_columns \<subseteq> set (columns df) \<longrightarrow>
        process_file fr w file_path results_df commission_rates = (results_df, None))
   \<and> (\<forall>df r k a e. read_file_with_encoding w file_path = Inr df \<and> r \<in> set (rows df)
          \<and> (k = c_AMOUNT \<or> k = c_COMMISSION) \<and> getitem r k = Inr a \<and> convert_amount a = Inl e \<longrightarrow>
        process_file fr w file_path results_df commission_rates = (results_df, None))
   \<and> (\<forall>df discrepancies. reconcile fr w file_path commission_rates = Inr (df, discrepancies)
          \<and> \<not> excel_writer_ok w file_path \<longrightarrow>
        process_file fr w file_path results_df commission_rates =
          (if rows discrepancies = [] then results_df else pd_concat results_df discrepancies, None))"
proof (intro conjI allI impI)
  fix e assume "read_file_with_encoding w file_path = Inl e"
  from process_file_reconcile_fails [OF reconcile_read_fails [OF this]]
  show "process_file fr w file_path results_df commission_rates = (results_df, None)" .
next
  fix df assume a: "read_file_with_encoding w file_path = Inr df \<and> \<not> set required_columns \<subseteq> set (columns df)"
  then have "annotate fr commission_rates df = Inl ValueError"
    by (simp add: annotate_missing_column)
  from process_file_reconcile_fails [OF reconcile_annotate_fails [OF _ this]] a
  show "process_file fr w file_path results_df commission_rates = (results_df, None)" by blast
next
  fix df r k a e
  assume a: "read_file_with_encoding w file_path = Inr df \<and> r \<in> set (rows df)
          \<and> (k = c_AMOUNT \<or> k = c_COMMISSION) \<and> getitem r k = Inr a \<and> convert_amount a = Inl e"
  with annotate_bad_cell [of r df k a e fr commission_rates]
  obtain e' where "annotate fr commission_rates df = Inl e'" by blast
  from process_file_reconcile_fails [OF reconcile_annotate_fails [OF _ this]] a
  show "process_file fr w file_path results_df commission_rates = (results_df, None)" by blast
next
  fix df discrepancies
  assume a: "reconcile fr w file_path commission_rates = Inr (df, discrepancies) \<and> \<not> excel_writer_ok w file_path"
  from reconcile_Inr [of fr w file_path commission_rates df discrepancies] a
  have "discrepancies = tagged file_path df" by blast
  with tagged_not_empty have "rows discrepancies \<noteq> [] \<Longrightarrow> columns discrepancies \<noteq> []" by simp
  with a show "process_file fr w file_path results_df commission_rates =
          (if rows discrepancies = [] then results_df else pd_concat results_df discrepancies, None)"
    by (auto simp: process_file_def frame_empty_def Let_def)
qed


lemma reconcile_frame_jcb:
  "\<exists>df ds. reconcile fr (example_world (Inr frame_jcb) ok) (u ''/data/a.csv'') default_rates = Inr (df, ds)
     \<and> rows df = [row_jcb_annotated] \<and> rows ds = [row_jcb_reported]"
proof -
  from annotate_frame_jcb obtain cs where
    a: "annotate fr default_rates frame_jcb = Inr \<lparr>columns = cs, rows = [row_jcb_annotated]\<rparr>" ..
  have "setitem row_jcb_annotated FAIL (Str (u ''a.csv'')) = row_jcb_reported"
    by (simp add: setitem_def row_jcb_reported_def row_jcb_annotated_def
        columns_distinct columns_distinct [symmetric])
      (simp add: FAIL_def c_TYPE_def c_AMOUNT_def c_COMMISSION_def c_PMT_SYSTEM_CODE_def
        KOMISSIYA_RASCHET_def u_def)
  with reconcile_eq [OF _ a, of "example_world (Inr frame_jcb) ok" "u ''/data/a.csv''"]
  show ?thesis
    by (simp add: rows_tagged flagged_jcb basename_a_csv)
qed

lemma process_file_write_fails:
  "reconcile fr w p rates = Inr (df, ds) \<Longrightarrow> \<not> excel_writer_ok w p \<Longrightarrow>
   snd (process_file fr w p res rates) = None"
  by (simp add: process_file_def Let_def)

lemma frame_bad_fails: "\<exists>e. annotate fr rates frame_bad = Inl e"
proof -
  have "row_bad \<in> set (rows frame_bad)" by (simp add: frame_bad_def)
  from annotate_bad_cell [OF this _ row_bad_cells(2) convert_amount_abc] show ?thesis by blast
qed

theorem early_failure_leaves_collection_witness:
  "process_file repr0 (example_world (Inl ValueError) True) (u ''/data/a.csv'') empty_frame default_rates
     = (empty_frame, None)
   \<and> process_file repr0 (example_world (Inr \<lparr>columns = [c_TYPE], rows = []\<rparr>) True) (u ''/data/a.csv'')
       empty_frame default_rates = (empty_frame, None)
   \<and> process_file repr0 (example_world (Inr frame_bad) True) (u ''/data/a.csv'') empty_frame default_rates
     = (empty_frame, None)
   \<and> (\<exists>df ds. reconcile repr0 (example_world (Inr frame_jcb) False) (u ''/data/a.csv'') default_rates = Inr (df, ds)
        \<and> rows ds = [row_jcb_reported]
        \<and> process_file repr0 (example_world (Inr frame_jcb) False) (u ''/data/a.csv'') empty_frame default_rates
            = (pd_concat empty_frame ds, None))"
proof (intro conjI)
  let ?p = "u ''/data/a.csv''"
  note th = early_failure_leaves_collection
  show "process_file repr0 (example_world (Inl ValueError) True) ?p empty_frame default_rates = (empty_frame, None)"
    using th [of "example_world (Inl ValueError) True" ?p repr0 empty_frame default_rates] by simp
  have "\<not> set required_columns \<subseteq> set [c_TYPE]"
    by (simp add: required_columns_def columns_distinct)
  then show "process_file repr0 (example_world (Inr \<lparr>columns = [c_TYPE], rows = []\<rparr>) True) ?p
       empty_frame default_rates = (empty_frame, None)"
    using th [of "example_world (Inr \<lparr>columns = [c_TYPE], rows = []\<rparr>) True" ?p repr0 empty_frame default_rates]
    by simp
  have "row_bad \<in> set (rows frame_bad)" by (simp add: frame_bad_def)
  with row_bad_cells(2) convert_amount_abc
  show "process_file repr0 (example_world (Inr frame_bad) True) ?p empty_frame default_rates = (empty_frame, None)"
    using th [of "example_world (Inr frame_bad) True" ?p repr0 empty_frame default_rates]
    by (metis read_example(1))
  from reconcile_frame_jcb obtain df ds where
    r: "reconcile repr0 (example_world (Inr frame_jcb) False) ?p default_rates = Inr (df, ds)"
    and ds: "rows ds = [row_jcb_reported]"
    by blast
  with th [of "example_world (Inr frame_jcb) False" ?p repr0 empty_frame default_rates]
  show "\<exists>df ds. reconcile repr0 (example_world (Inr frame_jcb) False) ?p default_rates = Inr (df, ds)
        \<and> rows ds = [row_jcb_reported]
        \<and> process_file repr0 (example_world (Inr frame_jcb) False) ?p empty_frame default_rates
            = (pd_concat empty_frame ds, None)"
    by auto
qed

text \<open>
  C4 as stated fails: the annotated table of a file with one discrepancy cannot be
  written, and \<^verbatim>\<open>process_file\<close> returns the collection with that discrepancy in it, not the
  empty collection that it was given.
\<close>

theorem write_failure_keeps_discrepancies:
  "\<not> excel_writer_ok (example_world (Inr frame_jcb) False) (u ''/data/a.csv'')
   \<and> snd (process_file repr0 (example_world (Inr frame_jcb) False) (u ''/data/a.csv'') empty_frame default_rates)
       = None
   \<and> rows (fst (process_file repr0 (example_world (Inr frame_jcb) False) (u ''/data/a.csv'') empty_frame
       default_rates)) = [row_jcb_reported]
   \<and> fst (process_file repr0 (example_world (Inr frame_jcb) False) (u ''/data/a.csv'') empty_frame default_rates)
       \<noteq> empty_frame"
proof -
  let ?w = "example_world (Inr frame_jcb) False" and ?p = "u ''/data/a.csv''"
  from reconcile_frame_jcb obtain df ds where r: "reconcile repr0 ?w ?p default_rates = Inr (df, ds)"
    by blast
  have 1: "snd (process_file repr0 ?w ?p empty_frame default_rates) = None"
    by (rule process_file_write_fails [OF r]) simp
  have 2: "rows (fst (process_file repr0 ?w ?p empty_frame default_rates)) = [row_jcb_reported]"
    by (simp add: process_file_rows file_discrepancies_jcb empty_frame_def)
  then have 3: "fst (process_file repr0 ?w ?p empty_frame default_rates) \<noteq> empty_frame"
    by (auto simp: empty_frame_def)
  from 1 2 3 show ?thesis by simp
qed

lemma calculate_commission_bad: "calculate_commission fr row_bad rates = Inr (Fin 0)"
  by (simp add: calculate_commission_def commission_try_def row_bad_cells convert_amount_abc)

text \<open>
  C3 says that a cell that cannot be normalised costs its own row only. The code converts
  the whole column of amounts at line 115, outside the handler of \<^verbatim>\<open>calculate_commission\<close>:
  in a file of two purchases, the first with the amount \<^verbatim>\<open>abc\<close>, the conversion raises, and
  \<^verbatim>\<open>process_file\<close> returns the collection unchanged and writes nothing, although the second
  row alone is a discrepancy, and although \<^verbatim>\<open>calculate_commission\<close>, given the bad row
  directly, catches the failure and returns 0.0.
\<close>

theorem bad_amount_cell_skips_whole_file:
  "process_file repr0 (example_world (Inr frame_bad) True) (u ''/data/a.csv'') empty_frame default_rates
     = (empty_frame, None)
   \<and> rows (fst (process_file repr0 (example_world (Inr frame_jcb) True) (u ''/data/a.csv'') empty_frame
       default_rates)) = [row_jcb_reported]
   \<and> calculate_commission repr0 row_bad default_rates = Inr (Fin 0)"
proof -
  from frame_bad_fails obtain e where "annotate repr0 default_rates frame_bad = Inl e" ..
  from reconcile_annotate_fails [OF _ this, of "example_world (Inr frame_bad) True" "u ''/data/a.csv''"]
  have "reconcile repr0 (example_world (Inr frame_bad) True) (u ''/data/a.csv'') default_rates = Inl e"
    by simp
  from process_file_reconcile_fails [OF this]
  have 1: "process_file repr0 (example_world (Inr frame_bad) True) (u ''/data/a.csv'') empty_frame default_rates
     = (empty_frame, None)" .
  have 2: "rows (fst (process_file repr0 (example_world (Inr frame_jcb) True) (u ''/data/a.csv'') empty_frame
       default_rates)) = [row_jcb_reported]"
    by (simp add: process_file_rows file_discrepancies_jcb empty_frame_def)
  from 1 2 calculate_commission_bad show ?thesis by simp
qed



section \<open>The rate table, verified\<close>

lemma load_rows_fail:
  "r \<in> set rs \<Longrightarrow> rate_row fr r = Inl e \<Longrightarrow> \<exists>e'. load_rows fr rs m = Inl e'"
proof (induction rs arbitrary: m)
  case Nil
  then show ?case by simp
next
  case (Cons a rs)
  show ?case
  proof (cases "rate_row fr a")
    case (Inl e0)
    then show ?thesis by simp
  next
    case (Inr kv)
    obtain k v where kv: "kv = (k, v)" by (cases kv)
    from Cons.prems Inr have "r \<in> set rs" by auto
    from Cons.IH [OF this Cons.prems(2)] Inr kv show ?thesis by simp
  qed
qed

lemma load_commission_rates_Inr: "\<exists>rates. load_commission_rates fr w = Inr rates"
  by (cases "load_try fr w") (simp_all add: load_commission_rates_def)

lemma load_try_Inl: "load_try fr w = Inl e \<Longrightarrow> load_commission_rates fr w = Inr default_rates"
  by (simp add: load_commission_rates_def)

lemma setdefault_has: "\<exists>d. setdefault m k v k = Some d"
  by (cases "m k") (simp_all add: setdefault_def)

lemma load_has_DEFAULT:
  assumes "load_commission_rates fr w = Inr rates"
  shows "\<exists>d. rates DEFAULT = Some d"
proof (cases "load_try fr w")
  case (Inl e)
  with assms show ?thesis
    by (auto simp: load_commission_rates_def default_rates_DEFAULT)
next
  case (Inr m)
  with assms have m: "m = rates" by (simp add: load_commission_rates_def)
  from Inr show ?thesis
    unfolding m load_try_def
    by (auto simp: bindE_eq_Inr default_rates_DEFAULT setdefault_has split: if_splits)
qed

text \<open>
  C5: \<^verbatim>\<open>load_commission_rates\<close> never raises: it always returns a table. When \<^verbatim>\<open>setup.xlsx\<close>
  is missing, cannot be read, is empty, or has a row that fails to parse (a missing column,
  a rate that is no number), the rows loaded so far are dropped and the built-in table is
  returned.
\<close>

theorem load_falls_back_to_builtin_table:
  "(\<exists>rates. load_commission_rates fr w = Inr rates)
   \<and> (\<not> setup_exists w \<longrightarrow> load_commission_rates fr w = Inr default_rates)
   \<and> (\<forall>e. read_setup w = Inl e \<longrightarrow> load_commission_rates fr w = Inr default_rates)
   \<and> (\<forall>df. read_setup w = Inr df \<and> frame_empty df \<longrightarrow> load_commission_rates fr w = Inr default_rates)
   \<and> (\<forall>df r e. read_setup w = Inr df \<and> r \<in> set (rows df) \<and> rate_row fr r = Inl e \<longrightarrow>
         load_commission_rates fr w = Inr default_rates)"
proof (intro conjI allI impI)
  show "\<exists>rates. load_commission_rates fr w = Inr rates"
    by (rule load_commission_rates_Inr)
  show "load_commission_rates fr w = Inr default_rates" if "\<not> setup_exists w"
    using that by (simp add: load_commission_rates_def load_try_def)
  show "load_commission_rates fr w = Inr default_rates" if "read_setup w = Inl e" for e
    using that by (simp add: load_commission_rates_def load_try_def)
  show "load_commission_rates fr w = Inr default_rates" if "read_setup w = Inr df \<and> frame_empty df" for df
    using that by (simp add: load_commission_rates_def load_try_def)
  show "load_commission_rates fr w = Inr default_rates"
    if a: "read_setup w = Inr df \<and> r \<in> set (rows df) \<and> rate_row fr r = Inl e" for df r e
  proof (cases "setup_exists w \<and> \<not> frame_empty df")
    case True
    from a load_rows_fail [of r "rows df" fr e Map.empty] obtain e' where
      "load_rows fr (rows df) Map.empty = Inl e'" by blast
    with a True have "load_try fr w = Inl e'"
      by (simp add: load_try_def)
    then show ?thesis by (rule load_try_Inl)
  next
    case False
    with a show ?thesis
      by (auto simp: load_commission_rates_def load_try_def)
  qed
qed

lemma setup_columns_distinct: "TIP_KARTY \<noteq> STAVKA_KOMISSII"
  by (simp add: TIP_KARTY_def STAVKA_KOMISSII_def)

lemma rate_row_visa:
  "rate_row fr setup_row_visa = Inr (u ''VISA'', Fin 0.02)"
proof -
  have "py_upper (py_strip (u ''visa'')) = u ''VISA''"
    by (simp add: py_upper_def py_strip_def is_space_def upper_char_def u_def)
  then show ?thesis
    by (simp add: rate_row_def getitem_def setup_columns_distinct setup_columns_distinct [symmetric]
        py_float_def py_str_def setup_row_visa_def)
qed

lemma rate_row_abc:
  "rate_row fr setup_row_abc = Inl ValueError"
  by (simp add: rate_row_def getitem_def setup_columns_distinct setup_columns_distinct [symmetric]
      py_float_def u_abc float_of_str_abc setup_row_abc_def)

lemma setup_world_simps [simp]:
  "setup_exists (setup_world df) = True" "read_setup (setup_world df) = Inr df"
  by (simp_all add: setup_world_def)

lemma load_setup_good:
  "load_commission_rates fr (setup_world setup_good) = Inr [u ''VISA'' \<mapsto> Fin 0.02, DEFAULT \<mapsto> Fin 0]"
proof -
  have "u ''VISA'' \<noteq> DEFAULT" by (simp add: DEFAULT_def u_def)
  then have "setdefault [u ''VISA'' \<mapsto> Fin 0.02] DEFAULT (Fin 0) = [u ''VISA'' \<mapsto> Fin 0.02, DEFAULT \<mapsto> Fin 0]"
    by (simp add: setdefault_def)
  moreover have "\<not> frame_empty setup_good"
    by (simp add: frame_empty_def setup_good_def)
  moreover have "load_rows fr (rows setup_good) Map.empty = Inr [u ''VISA'' \<mapsto> Fin 0.02]"
    by (simp add: setup_good_def rate_row_visa)
  ultimately show ?thesis
    by (simp add: load_commission_rates_def load_try_def dict_getitem_def default_rates_DEFAULT)
qed

theorem load_falls_back_to_builtin_table_witness:
  "load_commission_rates repr0 (example_world (Inl ValueError) True) = Inr default_rates
   \<and> load_commission_rates repr0 ((setup_world setup_good)\<lparr>read_setup := Inl OSError\<rparr>) = Inr default_rates
   \<and> load_commission_rates repr0 (setup_world \<lparr>columns = [TIP_KARTY, STAVKA_KOMISSII], rows = []\<rparr>)
       = Inr default_rates
   \<and> load_commission_rates repr0 (setup_world setup_bad) = Inr default_rates
   \<and> default_rates (u ''VISA'') = Some (Fin 0.0165)
   \<and> load_commission_rates repr0 (setup_world setup_good) = Inr [u ''VISA'' \<mapsto> Fin 0.02, DEFAULT \<mapsto> Fin 0]"
proof (intro conjI)
  note th = load_falls_back_to_builtin_table
  show "load_commission_rates repr0 (example_world (Inl ValueError) True) = Inr default_rates"
    using th [of repr0 "example_world (Inl ValueError) True"] by (simp add: example_world_def)
  show "load_commission_rates repr0 ((setup_world setup_good)\<lparr>read_setup := Inl OSError\<rparr>) = Inr default_rates"
    using th [of repr0 "(setup_world setup_good)\<lparr>read_setup := Inl OSError\<rparr>"] by simp
  show "load_commission_rates repr0 (setup_world \<lparr>columns = [TIP_KARTY, STAVKA_KOMISSII], rows = []\<rparr>)
       = Inr default_rates"
    using th [of repr0 "setup_world \<lparr>columns = [TIP_KARTY, STAVKA_KOMISSII], rows = []\<rparr>"]
    by (simp add: frame_empty_def)
  have "setup_row_abc \<in> set (rows setup_bad)"
    by (simp add: setup_bad_def)
  with rate_row_abc [of repr0]
  show "load_commission_rates repr0 (setup_world setup_bad) = Inr default_rates"
    using th [of repr0 "setup_world setup_bad"] by (metis setup_world_simps(2))
  show "default_rates (u ''VISA'') = Some (Fin 0.0165)"
    by (simp add: default_rates_def DEFAULT_def u_def)
  show "load_commission_rates repr0 (setup_world setup_good) = Inr [u ''VISA'' \<mapsto> Fin 0.02, DEFAULT \<mapsto> Fin 0]"
    by (rule load_setup_good)
qed

text \<open>
  C6: every table that \<^verbatim>\<open>load_commission_rates\<close> returns has an entry for \<open>DEFAULT\<close>, and the
  lookup of \<^verbatim>\<open>calculate_commission\<close> in it returns a rate for every code: the rate of the
  code when the table has it, the rate of \<open>DEFAULT\<close> when it has not.
\<close>

theorem rate_lookup_never_fails:
  "\<exists>rates d. load_commission_rates fr w = Inr rates \<and> rates DEFAULT = Some d
     \<and> (\<forall>code. rates_get rates code = Inr (case rates code of None \<Rightarrow> d | Some rate \<Rightarrow> rate))"
proof -
  from load_commission_rates_Inr obtain rates where r: "load_commission_rates fr w = Inr rates" ..
  from load_has_DEFAULT [OF r] obtain d where d: "rates DEFAULT = Some d" ..
  from r d rates_get_default [where rates = rates, OF d] show ?thesis by blast
qed


theorem rate_lookup_never_fails_witness:
  "\<exists>rates d. load_commission_rates repr0 (setup_world setup_good) = Inr rates \<and> rates DEFAULT = Some d
     \<and> d = Fin 0 \<and> rates_get rates (u ''JCB'') = Inr d \<and> rates_get rates (u ''VISA'') = Inr (Fin 0.02)"
proof -
  from rate_lookup_never_fails [of repr0 "setup_world setup_good"] obtain rates d where
    r: "load_commission_rates repr0 (setup_world setup_good) = Inr rates" and d: "rates DEFAULT = Some d"
    and g: "\<And>code. rates_get rates code = Inr (case rates code of None \<Rightarrow> d | Some rate \<Rightarrow> rate)"
    by blast
  from r load_setup_good [of repr0] have eq: "rates = [u ''VISA'' \<mapsto> Fin 0.02, DEFAULT \<mapsto> Fin 0]"
    by simp
  with d have d0: "d = Fin 0" by simp
  have "rates (u ''JCB'') = None" "rates (u ''VISA'') = Some (Fin 0.02)"
    unfolding eq by (simp_all add: DEFAULT_def u_def)
  with g [of "u ''JCB''"] g [of "u ''VISA''"] have "rates_get rates (u ''JCB'') = Inr d"
    "rates_get rates (u ''VISA'') = Inr (Fin 0.02)"
    by simp_all
  with r d d0 show ?thesis by blast
qed



section \<open>The run, verified\<close>

lemma processed_files_example: "processed_files (example_world rd ok) = [u ''/data/a.csv'']"
proof -
  have "is_input (u ''a.csv'')"
    by (simp add: is_input_def endswith_def startswith_def u_def)
  moreover have "path_join (u ''/data'') (u ''a.csv'') = u ''/data/a.csv''"
    by (simp add: path_join_def endswith_def u_def)
  ultimately show ?thesis
    by (simp add: processed_files_def example_world_def)
qed

lemma load_example: "load_commission_rates fr (example_world rd ok) = Inr default_rates"
  by (simp add: load_commission_rates_def load_try_def example_world_def)

lemma rows_stamp: "rows (stamp t df) = map (\<lambda>r. setitem r VREMYA_OBRABOTKI (Str t)) (rows df)"
  by (simp add: stamp_def)

lemma columns_stamp: "columns (stamp t df) \<noteq> []"
  by (auto simp: stamp_def add_column_def)

lemma main_no_files:
  "processed_files w = [] \<Longrightarrow> main fr w = Inr \<lparr>returned = empty_frame, annotated = [],
     results_file = (if results_exists w then Kept else Absent)\<rparr>"
proof -
  assume a: "processed_files w = []"
  from load_commission_rates_Inr obtain rates where "load_commission_rates fr w = Inr rates" ..
  with a show ?thesis by (simp add: main_def)
qed

lemma main_files:
  assumes "load_commission_rates fr w = Inr rates" "processed_files w \<noteq> []"
  shows "main fr w =
    (let results_df = fst (process_files fr w rates (processed_files w) (empty_frame, []));
         written = snd (process_files fr w rates (processed_files w) (empty_frame, []))
     in if results_exists w \<and> \<not> results_writable w then Inl OSError
        else if concat (map (file_discrepancies fr w rates) (processed_files w)) \<noteq> []
        then (if results_writable w
              then Inr \<lparr>returned = stamp (now w) results_df, annotated = written,
                         results_file = Report (stamp (now w) results_df)\<rparr>
              else Inl OSError)
        else Inr \<lparr>returned = results_df, annotated = written,
                   results_file = (if results_exists w then Truncated else Absent)\<rparr>)"
proof -
  obtain res written where pf: "process_files fr w rates (processed_files w) (empty_frame, []) = (res, written)"
    by (cases "process_files fr w rates (processed_files w) (empty_frame, [])")
  from process_files_empty_iff [of fr w rates "processed_files w"] pf
  have e: "frame_empty res = (concat (map (file_discrepancies fr w rates) (processed_files w)) = [])"
    by simp
  show ?thesis
    unfolding main_def Let_def by (simp only: assms bindE_Inr pf e fst_conv snd_conv prod.case if_False not_not)
qed

lemma main_returned_rows:
  assumes "load_commission_rates fr w = Inr rates" "main fr w = Inr out"
  shows "rows (returned out) = map (\<lambda>r. setitem r VREMYA_OBRABOTKI (Str (now w)))
           (concat (map (file_discrepancies fr w rates) (processed_files w)))"
    and "concat (map (file_discrepancies fr w rates) (processed_files w)) \<noteq> [] \<Longrightarrow>
           results_file out = Report (returned out)"
    and "concat (map (file_discrepancies fr w rates) (processed_files w)) = [] \<Longrightarrow>
           results_file out \<in> {Absent, Kept, Truncated}"
    and "results_file out = Report rep \<Longrightarrow> rep = returned out \<and> rows rep \<noteq> [] \<and> columns rep \<noteq> []"
proof -
  let ?ds = "concat (map (file_discrepancies fr w rates) (processed_files w))"
  let ?res = "fst (process_files fr w rates (processed_files w) (empty_frame, []))"
  have rows_res: "rows ?res = ?ds"
    using process_files_rows [of fr w rates "processed_files w" empty_frame "[]"]
    by (simp add: empty_frame_def)
  have all: "rows (returned out) = map (\<lambda>r. setitem r VREMYA_OBRABOTKI (Str (now w))) ?ds
      \<and> (?ds \<noteq> [] \<longrightarrow> results_file out = Report (returned out))
      \<and> (?ds = [] \<longrightarrow> results_file out \<in> {Absent, Kept, Truncated})
      \<and> (\<forall>rep. results_file out = Report rep \<longrightarrow> rep = returned out \<and> rows rep \<noteq> [] \<and> columns rep \<noteq> [])"
  proof (cases "processed_files w = []")
    case True
    from main_no_files [OF True, of fr] assms(2) True show ?thesis
      by (auto simp: empty_frame_def)
  next
    case False
    show ?thesis
    proof (cases "?ds = []")
      case True
      with main_files [OF assms(1) False] assms(2) rows_res show ?thesis
        by (simp add: Let_def split: if_splits)
    next
      case ne: False
      with main_files [OF assms(1) False] assms(2) have
        "out = \<lparr>returned = stamp (now w) ?res, annotated = snd (process_files fr w rates (processed_files w) (empty_frame, [])),
                 results_file = Report (stamp (now w) ?res)\<rparr>"
        by (simp add: Let_def split: if_splits)
      with ne rows_res show ?thesis
        by (simp add: rows_stamp columns_stamp)
    qed
  qed
  from all show "rows (returned out) = map (\<lambda>r. setitem r VREMYA_OBRABOTKI (Str (now w))) ?ds" by blast
  from all show "?ds \<noteq> [] \<Longrightarrow> results_file out = Report (returned out)" by blast
  from all show "?ds = [] \<Longrightarrow> results_file out \<in> {Absent, Kept, Truncated}" by blast
  from all show "results_file out = Report rep \<Longrightarrow> rep = returned out \<and> rows rep \<noteq> [] \<and> columns rep \<noteq> []"
    by blast
qed


lemma flagged_iff: "delta r = Some x \<Longrightarrow> flagged r \<longleftrightarrow> x \<noteq> Fin 0"
  by (simp add: flagged_def ne_zero_def)

lemma example_world_fields [simp]:
  "results_exists (example_world rd ok) = False" "results_writable (example_world rd ok) = True"
  "now (example_world rd ok) = u ''2024-01-01 00:00:00''"
  by (simp_all add: example_world_def)

text \<open>
  C2: every row of the annotated table of a file has a delta, and the row is among the
  discrepancies of the file if and only if that rounded delta is not zero; the
  discrepancies keep the order of the rows. \<^verbatim>\<open>process_file\<close> appends them to the collection,
  so that after the loop of \<^verbatim>\<open>main\<close> the collection is the concatenation of the
  discrepancies of the files, file after file in the order of processing. The data frame
  that \<^verbatim>\<open>main\<close> returns, which is the report when one is written, holds these rows with
  the time of the run added, and their number is the sum of the numbers of discrepancies
  of the files.
\<close>

theorem report_is_concatenation:
  "(\<forall>df discrepancies. reconcile fr w p rates = Inr (df, discrepancies) \<longrightarrow>
        (\<forall>r\<in>set (rows df). \<exists>x. delta r = Some x \<and> (r \<in> set (filter flagged (rows df)) \<longleftrightarrow> x \<noteq> Fin 0))
      \<and> rows discrepancies = map (\<lambda>r. setitem r FAIL (Str (basename p))) (filter flagged (rows df))
      \<and> file_discrepancies fr w rates p = rows discrepancies)
   \<and> rows (fst (process_file fr w p results_df rates)) = rows results_df @ file_discrepancies fr w rates p
   \<and> rows (fst (process_files fr w rates ps (empty_frame, []))) = concat (map (file_discrepancies fr w rates) ps)
   \<and> (\<forall>out. load_commission_rates fr w = Inr rates \<and> main fr w = Inr out \<longrightarrow>
        rows (returned out) = map (\<lambda>r. setitem r VREMYA_OBRABOTKI (Str (now w)))
          (concat (map (file_discrepancies fr w rates) (processed_files w)))
      \<and> length (rows (returned out))
          = sum_list (map (\<lambda>p. length (file_discrepancies fr w rates p)) (processed_files w))
      \<and> (\<forall>rep. results_file out = Report rep \<longrightarrow> rep = returned out))"
proof (intro conjI allI impI)
  fix df discrepancies
  assume r: "reconcile fr w p rates = Inr (df, discrepancies)"
  from reconcile_Inr [OF r] obtain df0 where a: "annotate fr rates df0 = Inr df"
    and t: "discrepancies = tagged p df" by blast
  show "\<forall>r\<in>set (rows df). \<exists>x. delta r = Some x \<and> (r \<in> set (filter flagged (rows df)) \<longleftrightarrow> x \<noteq> Fin 0)"
  proof
    fix r assume m: "r \<in> set (rows df)"
    from annotate_delta [OF a m] obtain x where x: "delta r = Some x" ..
    with m flagged_iff [OF x] show "\<exists>x. delta r = Some x \<and> (r \<in> set (filter flagged (rows df)) \<longleftrightarrow> x \<noteq> Fin 0)"
      by simp
  qed
  from t show "rows discrepancies = map (\<lambda>r. setitem r FAIL (Str (basename p))) (filter flagged (rows df))"
    by (simp add: rows_tagged)
  from r show "file_discrepancies fr w rates p = rows discrepancies"
    by (simp add: file_discrepancies_def)
next
  show "rows (fst (process_file fr w p results_df rates)) = rows results_df @ file_discrepancies fr w rates p"
    by (rule process_file_rows)
  show "rows (fst (process_files fr w rates ps (empty_frame, []))) = concat (map (file_discrepancies fr w rates) ps)"
    by (simp add: process_files_rows empty_frame_def)
next
  fix out
  assume a: "load_commission_rates fr w = Inr rates \<and> main fr w = Inr out"
  then have l: "load_commission_rates fr w = Inr rates" and m: "main fr w = Inr out" by simp_all
  from main_returned_rows(1) [OF l m]
  show 1: "rows (returned out) = map (\<lambda>r. setitem r VREMYA_OBRABOTKI (Str (now w)))
          (concat (map (file_discrepancies fr w rates) (processed_files w)))" .
  have "map length (map (file_discrepancies fr w rates) (processed_files w))
      = map (\<lambda>p. length (file_discrepancies fr w rates p)) (processed_files w)"
    by simp
  with 1 show "length (rows (returned out))
          = sum_list (map (\<lambda>p. length (file_discrepancies fr w rates p)) (processed_files w))"
    by (simp add: length_concat del: map_map)
  fix rep assume "results_file out = Report rep"
  from main_returned_rows(4) [OF l m this] show "rep = returned out" by simp
qed

theorem report_is_concatenation_witness:
  "\<exists>out df ds. main repr0 (example_world (Inr frame_jcb) True) = Inr out
     \<and> reconcile repr0 (example_world (Inr frame_jcb) True) (u ''/data/a.csv'') default_rates = Inr (df, ds)
     \<and> rows df = [row_jcb_annotated] \<and> delta row_jcb_annotated = Some (Fin 5)
     \<and> rows ds = [row_jcb_reported]
     \<and> rows (returned out) = [setitem row_jcb_reported VREMYA_OBRABOTKI (Str (u ''2024-01-01 00:00:00''))]
     \<and> length (rows (returned out)) = 1
     \<and> results_file out = Report (returned out)"
proof -
  let ?w = "example_world (Inr frame_jcb) True" and ?p = "u ''/data/a.csv''"
  note th = report_is_concatenation [of repr0 ?w ?p default_rates empty_frame "[?p]"]
  from reconcile_frame_jcb obtain df ds where r: "reconcile repr0 ?w ?p default_rates = Inr (df, ds)"
    and df: "rows df = [row_jcb_annotated]" and ds: "rows ds = [row_jcb_reported]"
    by blast
  have fd: "concat (map (file_discrepancies repr0 ?w default_rates) (processed_files ?w)) = [row_jcb_reported]"
    by (simp add: processed_files_example file_discrepancies_jcb)
  have "processed_files ?w \<noteq> []"
    by (simp add: processed_files_example)
  from main_files [OF load_example this, of repr0] fd obtain out where out: "main repr0 ?w = Inr out"
    by (simp add: Let_def)
  from th load_example [of repr0] out fd
  have rows: "rows (returned out) = [setitem row_jcb_reported VREMYA_OBRABOTKI (Str (u ''2024-01-01 00:00:00''))]"
    and len: "length (rows (returned out)) = 1"
    by (simp_all add: processed_files_example file_discrepancies_jcb)
  have d: "delta row_jcb_annotated = Some (Fin 5)"
    by (simp add: delta_def getitem_def row_jcb_annotated_def columns_distinct columns_distinct [symmetric])
  from main_returned_rows(2) [OF load_example out] fd have "results_file out = Report (returned out)"
    by simp
  with out r df ds rows len d show ?thesis by blast
qed

text \<open>
  C7: with no input file \<^verbatim>\<open>main\<close> returns at once: no annotated table is written and
  \<^verbatim>\<open>results.xlsx\<close> is not touched. When the files have no discrepancy at all, no report is
  written: \<^verbatim>\<open>results.xlsx\<close> is absent afterwards, or, if an earlier run left one, it is cut
  to zero bytes. And a report that is written always has a row, so that "no report" is
  never a report with zero rows.
\<close>

theorem no_discrepancies_no_report:
  "(processed_files w = [] \<longrightarrow>
      main fr w = Inr \<lparr>returned = empty_frame, annotated = [],
                         results_file = (if results_exists w then Kept else Absent)\<rparr>)
   \<and> (\<forall>rates. load_commission_rates fr w = Inr rates \<and> processed_files w \<noteq> []
         \<and> (\<forall>p\<in>set (processed_files w). file_discrepancies fr w rates p = []) \<longrightarrow>
       main fr w =
         (if results_exists w \<and> \<not> results_writable w then Inl OSError
          else Inr \<lparr>returned = fst (process_files fr w rates (processed_files w) (empty_frame, [])),
                     annotated = snd (process_files fr w rates (processed_files w) (empty_frame, [])),
                     results_file = (if results_exists w then Truncated else Absent)\<rparr>)
       \<and> rows (fst (process_files fr w rates (processed_files w) (empty_frame, []))) = [])
   \<and> (\<forall>out rep. main fr w = Inr out \<and> results_file out = Report rep \<longrightarrow>
         rows rep \<noteq> [] \<and> columns rep \<noteq> [])"
proof (intro conjI allI impI)
  show "main fr w = Inr \<lparr>returned = empty_frame, annotated = [],
      results_file = (if results_exists w then Kept else Absent)\<rparr>" if "processed_files w = []"
    by (rule main_no_files [OF that])
next
  fix rates
  assume a: "load_commission_rates fr w = Inr rates \<and> processed_files w \<noteq> []
         \<and> (\<forall>p\<in>set (processed_files w). file_discrepancies fr w rates p = [])"
  then have e: "concat (map (file_discrepancies fr w rates) (processed_files w)) = []"
    by simp
  from a main_files [of fr w rates]
  have "main fr w =
    (let results_df = fst (process_files fr w rates (processed_files w) (empty_frame, []));
         written = snd (process_files fr w rates (processed_files w) (empty_frame, []))
     in if results_exists w \<and> \<not> results_writable w then Inl OSError
        else if concat (map (file_discrepancies fr w rates) (processed_files w)) \<noteq> []
        then (if results_writable w
              then Inr \<lparr>returned = stamp (now w) results_df, annotated = written,
                         results_file = Report (stamp (now w) results_df)\<rparr>
              else Inl OSError)
        else Inr \<lparr>returned = results_df, annotated = written,
                   results_file = (if results_exists w then Truncated else Absent)\<rparr>)"
    by blast
  then show "main fr w =
         (if results_exists w \<and> \<not> results_writable w then Inl OSError
          else Inr \<lparr>returned = fst (process_files fr w rates (processed_files w) (empty_frame, [])),
                     annotated = snd (process_files fr w rates (processed_files w) (empty_frame, [])),
                     results_file = (if results_exists w then Truncated else Absent)\<rparr>)"
    using a by (simp add: Let_def)
  from e show "rows (fst (process_files fr w rates (processed_files w) (empty_frame, []))) = []"
    by (simp only: process_files_rows) (simp add: empty_frame_def)
next
  fix out rep
  assume a: "main fr w = Inr out \<and> results_file out = Report rep"
  from load_commission_rates_Inr obtain rates where l: "load_commission_rates fr w = Inr rates" ..
  from main_returned_rows(4) [OF l] a show "rows rep \<noteq> []" "columns rep \<noteq> []" by blast+
qed


theorem no_discrepancies_no_report_witness:
  "main repr0 ((example_world (Inl ValueError) True)\<lparr>listdir := []\<rparr>)
     = Inr \<lparr>returned = empty_frame, annotated = [], results_file = Absent\<rparr>
   \<and> main repr0 (example_world (Inl ValueError) True)
     = Inr \<lparr>returned = empty_frame, annotated = [], results_file = Absent\<rparr>
   \<and> main repr0 ((example_world (Inl ValueError) True)\<lparr>results_exists := True\<rparr>)
     = Inr \<lparr>returned = empty_frame, annotated = [], results_file = Truncated\<rparr>
   \<and> (\<exists>out rep. main repr0 (example_world (Inr frame_jcb) True) = Inr out
         \<and> results_file out = Report rep \<and> rows rep \<noteq> [] \<and> columns rep \<noteq> [])"
proof (intro conjI)
  let ?p = "u ''/data/a.csv''"
  let ?w0 = "(example_world (Inl ValueError) True)\<lparr>listdir := []\<rparr>"
  let ?w1 = "example_world (Inl ValueError) True"
  let ?w2 = "(example_world (Inl ValueError) True)\<lparr>results_exists := True\<rparr>"
  let ?w3 = "example_world (Inr frame_jcb) True"
  have "processed_files ?w0 = []"
    by (simp add: processed_files_def)
  with no_discrepancies_no_report [of ?w0 repr0]
  show "main repr0 ?w0 = Inr \<lparr>returned = empty_frame, annotated = [], results_file = Absent\<rparr>"
    by (simp add: example_world_def)
  have pf1: "processed_files ?w1 = [?p]"
    by (rule processed_files_example)
  have fd1: "file_discrepancies repr0 ?w1 default_rates ?p = []"
    by (simp add: file_discrepancies_def reconcile_def)
  have run1: "process_files repr0 ?w1 default_rates [?p] (empty_frame, []) = (empty_frame, [])"
    by (simp add: process_file_def reconcile_def)
  from no_discrepancies_no_report [of ?w1 repr0] load_example [of repr0 "Inl ValueError" True] pf1 fd1 run1
  show "main repr0 ?w1 = Inr \<lparr>returned = empty_frame, annotated = [], results_file = Absent\<rparr>"
    by simp
  have pf2: "processed_files ?w2 = [?p]"
    using processed_files_example [of "Inl ValueError" True]
    by (simp add: processed_files_def example_world_def)
  have l2: "load_commission_rates repr0 ?w2 = Inr default_rates"
    by (simp add: load_commission_rates_def load_try_def example_world_def)
  have rd2: "read_file_with_encoding ?w2 ?p = Inl ValueError"
    by (simp add: example_world_def)
  have fd2: "file_discrepancies repr0 ?w2 default_rates ?p = []"
    by (simp add: file_discrepancies_def reconcile_def rd2)
  have run2: "process_files repr0 ?w2 default_rates [?p] (empty_frame, []) = (empty_frame, [])"
    by (simp add: process_file_def reconcile_def rd2)
  have ex2: "results_exists ?w2" "results_writable ?w2"
    by (simp_all add: example_world_def)
  from no_discrepancies_no_report [of ?w2 repr0] l2 pf2 fd2 run2 ex2
  show "main repr0 ?w2 = Inr \<lparr>returned = empty_frame, annotated = [], results_file = Truncated\<rparr>"
    by simp
  have fd: "concat (map (file_discrepancies repr0 ?w3 default_rates) (processed_files ?w3)) = [row_jcb_reported]"
    by (simp add: processed_files_example file_discrepancies_jcb)
  have "processed_files ?w3 \<noteq> []"
    by (simp add: processed_files_example)
  from main_files [OF load_example this, of repr0] fd obtain out where out: "main repr0 ?w3 = Inr out"
    by (simp add: Let_def)
  from main_returned_rows(2) [OF load_example out] fd have rep: "results_file out = Report (returned out)"
    by simp
  with no_discrepancies_no_report [of ?w3 repr0] out
  have "rows (returned out) \<noteq> [] \<and> columns (returned out) \<noteq> []" by blast
  with out rep show "\<exists>out rep. main repr0 ?w3 = Inr out
         \<and> results_file out = Report rep \<and> rows rep \<noteq> [] \<and> columns rep \<noteq> []"
    by blast
qed


end
